theory Spec2Isabelle
  imports Complex_Main
begin

section \<open>Floating-point values\<close>

text \<open>
  The program computes with IEEE doubles (Python \<^verbatim>\<open>float\<close> and \<^verbatim>\<open>numpy.float64\<close>).
  They are modelled without rounding and without range: a value is a real number, one of
  the two infinities, or NaN. The special values follow IEEE 754 (NaN is absorbing and
  unordered, \<open>inf - inf\<close> and \<open>0 * inf\<close> are NaN); signed zeros are not distinguished.
\<close>

datatype fl = Fin real | PInf | MInf | NaN

fun isnan :: "fl \<Rightarrow> bool" where
  "isnan NaN = True"
| "isnan _ = False"

fun fneg :: "fl \<Rightarrow> fl" where
  "fneg (Fin x) = Fin (- x)"
| "fneg PInf = MInf"
| "fneg MInf = PInf"
| "fneg NaN = NaN"

fun fadd :: "fl \<Rightarrow> fl \<Rightarrow> fl" where
  "fadd (Fin x) (Fin y) = Fin (x + y)"
| "fadd NaN _ = NaN"
| "fadd _ NaN = NaN"
| "fadd PInf MInf = NaN"
| "fadd MInf PInf = NaN"
| "fadd PInf _ = PInf"
| "fadd _ PInf = PInf"
| "fadd MInf _ = MInf"
| "fadd _ MInf = MInf"

definition fsub :: "fl \<Rightarrow> fl \<Rightarrow> fl" where
  "fsub x y = fadd x (fneg y)"

text \<open>The sign of a value that is not NaN: negative, zero or positive.\<close>

fun fsgn :: "fl \<Rightarrow> int" where
  "fsgn (Fin x) = (if x < 0 then - 1 else if x = 0 then 0 else 1)"
| "fsgn PInf = 1"
| "fsgn MInf = - 1"
| "fsgn NaN = 0"

fun fmul :: "fl \<Rightarrow> fl \<Rightarrow> fl" where
  "fmul (Fin x) (Fin y) = Fin (x * y)"
| "fmul NaN _ = NaN"
| "fmul _ NaN = NaN"
| "fmul x y =
     (if fsgn x * fsgn y = 0 then NaN else if fsgn x * fsgn y = 1 then PInf else MInf)"

text \<open>
  Division of \<^verbatim>\<open>numpy.float64\<close> values: a zero divisor gives an infinity or NaN (with a
  warning), never an exception.
\<close>

fun fdiv :: "fl \<Rightarrow> fl \<Rightarrow> fl" where
  "fdiv (Fin x) (Fin y) =
     (if y = 0 then (if x = 0 then NaN else if 0 < x then PInf else MInf) else Fin (x / y))"
| "fdiv NaN _ = NaN"
| "fdiv _ NaN = NaN"
| "fdiv (Fin x) _ = Fin 0"
| "fdiv x (Fin y) = (if 0 \<le> y then x else fneg x)"
| "fdiv _ _ = NaN"

fun fsqrt :: "fl \<Rightarrow> fl" where
  "fsqrt (Fin x) = (if x < 0 then NaN else Fin (sqrt x))"
| "fsqrt PInf = PInf"
| "fsqrt MInf = NaN"
| "fsqrt NaN = NaN"

text \<open>\<^verbatim>\<open>x ** n\<close> for a literal exponent \<open>n\<close> (2, 3 and 4 in the source).\<close>

primrec fpow :: "fl \<Rightarrow> nat \<Rightarrow> fl" where
  "fpow x 0 = Fin 1"
| "fpow x (Suc n) = fmul x (fpow x n)"

text \<open>The comparison \<^verbatim>\<open>x > y\<close>: false as soon as one side is NaN.\<close>

fun fgt :: "fl \<Rightarrow> fl \<Rightarrow> bool" where
  "fgt (Fin x) (Fin y) = (y < x)"
| "fgt NaN _ = False"
| "fgt _ NaN = False"
| "fgt PInf PInf = False"
| "fgt PInf _ = True"
| "fgt MInf _ = False"
| "fgt _ MInf = True"
| "fgt _ PInf = False"

fun isfinite :: "fl \<Rightarrow> bool" where
  "isfinite (Fin x) = True"
| "isfinite _ = False"

definition fle :: "fl \<Rightarrow> fl \<Rightarrow> bool" where
  "fle x y = (\<not> isnan x \<and> \<not> isnan y \<and> \<not> fgt x y)"

text \<open>
  \<^verbatim>\<open>pow(a, y)\<close> of a \<^verbatim>\<open>numpy.float64\<close> base \<open>a\<close> and a real exponent \<open>y\<close>: a negative base
  with a non-integral exponent has no real power, and numpy returns NaN (a plain Python
  \<^verbatim>\<open>float\<close> base returns a complex number there, which is no real either).
\<close>

fun fpowr :: "fl \<Rightarrow> real \<Rightarrow> fl" where
  "fpowr (Fin x) y =
     (if y = 0 then Fin 1
      else if 0 < x then Fin (x powr y)
      else if x = 0 then (if 0 < y then Fin 0 else PInf)
      else if y = of_int \<lfloor>y\<rfloor> then Fin (power_int x \<lfloor>y\<rfloor>)
      else NaN)"
| "fpowr PInf y = (if y = 0 then Fin 1 else if 0 < y then PInf else Fin 0)"
| "fpowr MInf y =
     (if y = 0 then Fin 1
      else if y = of_int \<lfloor>y\<rfloor> \<and> odd \<lfloor>y\<rfloor> then (if 0 < y then MInf else Fin 0)
      else (if 0 < y then PInf else Fin 0))"
| "fpowr NaN y = (if y = 0 then Fin 1 else NaN)"

definition float_max :: real where
  "float_max = (2 - 1 / 2 ^ 52) * 2 ^ 1023"

section \<open>Exceptions\<close>

datatype error = ValueError | ZeroDivisionError | OverflowError | UnboundLocalError

text \<open>
  Division of Python \<^verbatim>\<open>float\<close> values (the step-size parameters \<^verbatim>\<open>L\<close>, \<^verbatim>\<open>lam\<close>): a zero
  divisor raises.
\<close>

definition py_truediv :: "fl \<Rightarrow> fl \<Rightarrow> error + fl" where
  "py_truediv x y = (if y = Fin 0 then Inl ZeroDivisionError else Inr (fdiv x y))"

text \<open>
  \<^verbatim>\<open>rho1 ** j\<close> of a Python \<^verbatim>\<open>float\<close> and a Python \<^verbatim>\<open>int\<close>: a finite result outside the
  double range raises OverflowError in the interpreter itself.
\<close>

definition py_pow :: "fl \<Rightarrow> nat \<Rightarrow> error + fl" where
  "py_pow x j =
     (case fpow x j of
        Fin r \<Rightarrow> if float_max < \<bar>r\<bar> then Inl OverflowError else Inr (Fin r)
      | v \<Rightarrow> Inr v)"

section \<open>Matrices\<close>

text \<open>
  A \<^verbatim>\<open>scipy.sparse.csr_matrix\<close> is modelled by its dense content, the list of its rows.
  The operations are those of the library on operands of matching shapes; which entries a
  sparse matrix stores is not modelled.
\<close>

type_synonym matrix = "fl list list"

definition shape :: "matrix \<Rightarrow> nat \<times> nat" where
  "shape M = (length M, (case M of [] \<Rightarrow> 0 | r # _ \<Rightarrow> length r))"

definition fsum :: "fl list \<Rightarrow> fl" where
  "fsum xs = foldr fadd xs (Fin 0)"

definition mat_T :: "matrix \<Rightarrow> matrix" where
  "mat_T M = map (\<lambda>j. map (\<lambda>r. r ! j) M) [0..<snd (shape M)]"

definition dot :: "matrix \<Rightarrow> matrix \<Rightarrow> matrix" where
  "dot M N = map (\<lambda>r. map (\<lambda>c. fsum (map2 fmul r c)) (mat_T N)) M"

definition multiply :: "matrix \<Rightarrow> matrix \<Rightarrow> matrix" where
  "multiply M N = map2 (map2 fmul) M N"

definition mat_add :: "matrix \<Rightarrow> matrix \<Rightarrow> matrix" where
  "mat_add M N = map2 (map2 fadd) M N"

definition mat_sub :: "matrix \<Rightarrow> matrix \<Rightarrow> matrix" where
  "mat_sub M N = map2 (map2 fsub) M N"

definition scal :: "fl \<Rightarrow> matrix \<Rightarrow> matrix" where
  "scal c M = map (map (fmul c)) M"

definition vstack :: "matrix \<Rightarrow> matrix \<Rightarrow> matrix" where
  "vstack M N = M @ N"

definition mat_sum :: "matrix \<Rightarrow> fl" where
  "mat_sum M = fsum (concat M)"

text \<open>\<^verbatim>\<open>sp.linalg.norm(M)\<close>, the Frobenius norm (also the default of \<^verbatim>\<open>ord\<close>).\<close>

definition norm_fro :: "matrix \<Rightarrow> fl" where
  "norm_fro M = fsqrt (fsum (map (\<lambda>x. fmul x x) (concat M)))"

definition has_shape :: "matrix \<Rightarrow> nat \<Rightarrow> nat \<Rightarrow> bool" where
  "has_shape M r c = (length M = r \<and> list_all (\<lambda>row. length row = c) M)"

section \<open>The optimizer object\<close>

record MatrixCompletion =
  A :: matrix
  mask_tr :: matrix
  test_matrix :: matrix
  test_mask :: matrix
  k :: int
  mu :: fl
  iterations :: int
  H1 :: matrix
  H2 :: matrix

text \<open>
  \<^verbatim>\<open>np.random.randn(r, c)\<close> after \<^verbatim>\<open>np.random.seed(123)\<close>: the generator is a
  parameter, the sequence \<open>draws\<close> of its successive samples; the matrix is filled row by
  row starting at sample \<open>off\<close>. A negative dimension raises ValueError.
\<close>

definition randn :: "(nat \<Rightarrow> real) \<Rightarrow> nat \<Rightarrow> int \<Rightarrow> int \<Rightarrow> error + matrix" where
  "randn draws off r c =
     (if r < 0 \<or> c < 0 then Inl ValueError
      else Inr (map (\<lambda>i. map (\<lambda>j. Fin (draws (off + i * nat c + j))) [0..<nat c])
                  [0..<nat r]))"

text \<open>
  The constructor \<^verbatim>\<open>__init__\<close>: it stores its arguments, seeds the generator and draws the
  two factors from the shape of \<^verbatim>\<open>A\<close>. The source compares no shapes.
\<close>

definition init ::
  "(nat \<Rightarrow> real) \<Rightarrow> matrix \<Rightarrow> matrix \<Rightarrow> matrix \<Rightarrow> matrix \<Rightarrow> int \<Rightarrow> fl \<Rightarrow> int
     \<Rightarrow> error + MatrixCompletion" where
  "init draws A0 mask0 test0 test_mask0 k0 mu0 iterations0 =
     (let (m, n) = shape A0 in
      case randn draws 0 (int m) k0 of
        Inl e \<Rightarrow> Inl e
      | Inr h1 \<Rightarrow>
         (case randn draws (m * nat k0) k0 (int n) of
            Inl e \<Rightarrow> Inl e
          | Inr h2 \<Rightarrow>
              Inr \<lparr>A = A0, mask_tr = mask0, test_matrix = test0, test_mask = test_mask0,
                   k = k0, mu = mu0, iterations = iterations0, H1 = h1, H2 = h2\<rparr>))"

definition calculate_loss :: "MatrixCompletion \<Rightarrow> fl" where
  "calculate_loss self =
     (let residual = multiply (mask_tr self) (mat_sub (A self) (dot (H1 self) (H2 self)))
      in fmul (Fin (1 / 2)) (fpow (norm_fro residual) 2))"

text \<open>
  \<^verbatim>\<open>mean_squared_error\<close> of the library validates its two value vectors first: vectors
  of different lengths, empty vectors and vectors holding NaN or an infinity raise
  ValueError. Otherwise the result is the mean of the squared differences.
\<close>

definition mean_squared_error :: "fl list \<Rightarrow> fl list \<Rightarrow> error + fl" where
  "mean_squared_error ys ps =
     (if length ys \<noteq> length ps then Inl ValueError
      else if ys = [] then Inl ValueError
      else if list_all isfinite ys \<and> list_all isfinite ps
        then Inr (fdiv (fsum (map2 (\<lambda>y p. fpow (fsub y p) 2) ys ps))
                       (Fin (real (length ys))))
      else Inl ValueError)"

text \<open>The entries of \<open>M\<close> at the positions where \<open>sel\<close> is nonzero, in row-major order.\<close>

definition at_nonzero :: "matrix \<Rightarrow> matrix \<Rightarrow> fl list" where
  "at_nonzero M sel = map fst (filter (\<lambda>(x, s). s \<noteq> Fin 0) (zip (concat M) (concat sel)))"

definition calculate_rmse :: "MatrixCompletion \<Rightarrow> error + fl" where
  "calculate_rmse self =
     (let predicted_matrix = dot (H1 self) (H2 self);
          test_predictions = multiply (test_mask self) predicted_matrix;
          test_values_actual = at_nonzero (test_matrix self) (test_mask self);
          test_values_predicted = at_nonzero test_predictions (test_mask self)
      in case mean_squared_error test_values_actual test_values_predicted of
           Inl e \<Rightarrow> Inl e
         | Inr mse \<Rightarrow> Inr (fsqrt mse))"

text \<open>\<^verbatim>\<open>nthr(a, n) = pow(a, 1 / n)\<close>; \<^verbatim>\<open>1 / n\<close> raises for \<open>n = 0\<close>.\<close>

definition nthr :: "fl \<Rightarrow> int \<Rightarrow> error + fl" where
  "nthr a n = (if n = 0 then Inl ZeroDivisionError else Inr (fpowr a (1 / real_of_int n)))"

definition func_h :: "matrix \<Rightarrow> fl \<Rightarrow> fl" where
  "func_h W tau =
     (let fro_norm = norm_fro W
      in fadd (fmul (Fin (1 / 4)) (fpow fro_norm 4))
              (fmul (fmul (Fin (1 / 2)) tau) (fpow fro_norm 2)))"

definition D_h :: "matrix \<Rightarrow> matrix \<Rightarrow> fl \<Rightarrow> fl" where
  "D_h W1 W2 tau =
     (let hw1 = func_h W1 tau;
          hw2 = func_h W2 tau;
          grad_h_w2 = scal (fadd (fpow (norm_fro W2) 2) tau) W2
      in fsub (fsub hw1 hw2) (mat_sum (dot (mat_T grad_h_w2) (mat_sub W1 W2))))"


section \<open>The adaptive optimisation loop\<close>

text \<open>
  The record returned by \<^verbatim>\<open>MC_adaptive_2\<close>. The wall-clock \<^verbatim>\<open>runtime\<close> is not part of
  the model.
\<close>

record MCAdaptive2Result =
  completed_matrix :: matrix
  loss_history :: "fl list"
  iterations :: int
  rmse_history :: "fl list"

text \<open>
  The local variables of \<^verbatim>\<open>MC_adaptive_2\<close> that live across outer iterations, with the
  object \<^verbatim>\<open>self\<close>. The loop variable \<^verbatim>\<open>i\<close> is unbound until the loop body first runs.
\<close>

record locals =
  self :: MatrixCompletion
  loss :: "fl list"
  rmse :: "fl list"
  Wk :: matrix
  alpha_k :: fl
  L :: fl
  tau :: fl
  tau1 :: fl
  t1 :: fl
  i :: "nat option"

text \<open>The variables that one outer iteration adds.\<close>

record iter_locals = locals +
  grad_f_Wk :: matrix
  Wk1 :: matrix
  fk1 :: fl
  j :: nat
  flag :: nat

text \<open>Lines 153 to 165: the baseline histories, the stacked state and the constants.\<close>

definition prologue :: "MatrixCompletion \<Rightarrow> fl \<Rightarrow> error + locals" where
  "prologue self0 L0 =
     (let (m, n) = shape (A self0);
          loss0 = [fdiv (calculate_loss self0) (Fin (real (m * n)))]
      in case calculate_rmse self0 of
           Inl e \<Rightarrow> Inl e
         | Inr r0 \<Rightarrow>
            (let rmse0 = [r0];
                 Wk0 = vstack (H1 self0) (mat_T (H2 self0))
             in case py_truediv (Fin 1) L0 of
                  Inl e \<Rightarrow> Inl e
                | Inr a \<Rightarrow>
                   (let tau0 = fdiv (norm_fro (A self0)) (Fin 3);
                        tau10 = fdiv (fneg (fpow tau0 2)) (Fin 3);
                        t10 = fdiv tau10 (Fin 3)
                    in Inr \<lparr>self = self0, loss = loss0, rmse = rmse0, Wk = Wk0,
                            alpha_k = a, L = L0, tau = tau0, tau1 = tau10, t1 = t10,
                            i = None\<rparr>)))"

text \<open>Lines 174 to 184: the gradient of the loss, stacked like \<^verbatim>\<open>Wk\<close>.\<close>

definition gradient :: "MatrixCompletion \<Rightarrow> matrix" where
  "gradient s =
     (let grad_u =
            mat_add (dot (multiply (mask_tr s) (mat_sub (dot (H1 s) (H2 s)) (A s)))
                         (mat_T (H2 s)))
                    (scal (mu s) (H1 s));
          grad_v =
            mat_add (dot (multiply (mat_T (mask_tr s))
                            (mat_sub (dot (mat_T (H2 s)) (mat_T (H1 s))) (mat_T (A s))))
                         (H1 s))
                    (scal (mu s) (mat_T (H2 s)))
      in vstack grad_u grad_v)"

text \<open>
  The cube root \<^verbatim>\<open>self.nthr(T, 3)\<close> as a value: with the literal degree 3 the helper
  cannot raise (lemma \<open>nthr_3\<close> below).
\<close>

definition nthr3 :: "fl \<Rightarrow> fl" where
  "nthr3 a = (case nthr a 3 of Inr r \<Rightarrow> r | Inl e \<Rightarrow> NaN)"

text \<open>Lines 187 to 202: the candidate of the outer loop.\<close>

definition step2 :: "fl \<Rightarrow> fl \<Rightarrow> matrix \<Rightarrow> fl \<Rightarrow> matrix \<Rightarrow> matrix" where
  "step2 tau0 t10 W alpha g =
     (let grad = mat_sub (scal (fadd (fpow (norm_fro W) 2) tau0) W) (scal alpha g);
          tau2 = fdiv (fdiv (fsub (fmul (Fin (- 2)) (fpow tau0 3))
                                  (fmul (Fin 27) (fpow (norm_fro grad) 2)))
                            (Fin 27))
                      (Fin 2);
          T1 = fadd (fneg tau2) (fsqrt (fadd (fpow tau2 2) (fpow t10 3)));
          T2 = fsub (fneg tau2) (fsqrt (fadd (fpow tau2 2) (fpow t10 3)));
          t = fadd (fadd (fdiv tau0 (Fin 3)) (nthr3 T1)) (nthr3 T2)
      in scal (fdiv (Fin 1) t) grad)"

text \<open>Lines 227 to 238: the candidate recomputed by the inner loop.\<close>

definition step2_retry :: "fl \<Rightarrow> fl \<Rightarrow> matrix \<Rightarrow> fl \<Rightarrow> matrix \<Rightarrow> matrix" where
  "step2_retry tau0 t10 W alpha g =
     (let grad = mat_sub (scal (fadd (fpow (norm_fro W) 2) tau0) W) (scal alpha g);
          tau2 = fdiv (fdiv (fsub (fmul (Fin (- 2)) (fpow tau0 3))
                                  (fmul (Fin 27) (fpow (norm_fro grad) 2)))
                            (Fin 27))
                      (Fin 2);
          T1 = fadd (fneg tau2) (fsqrt (fadd (fpow tau2 2) (fpow (fdiv t10 (Fin 3)) 3)));
          T2 = fsub (fneg tau2) (fsqrt (fadd (fpow tau2 2) (fpow (fdiv t10 (Fin 3)) 3)));
          t = fadd (fadd (fdiv tau0 (Fin 3)) (nthr3 T1)) (nthr3 T2)
      in scal (fdiv (Fin 1) t) grad)"

text \<open>
  Lines 203 to 204 and 239 to 240: the candidate is split at row \<open>m\<close> and written to the
  object at once.
\<close>

definition update_factors :: "MatrixCompletion \<Rightarrow> matrix \<Rightarrow> MatrixCompletion" where
  "update_factors s W =
     (let m = fst (shape (A s)) in s\<lparr>H1 := take m W, H2 := mat_T (drop m W)\<rparr>)"

text \<open>Lines 213 to 215: the condition of the inner loop, true when the candidate is rejected.\<close>

definition accept_bound :: "'a iter_locals_scheme \<Rightarrow> fl" where
  "accept_bound s =
     fadd (fadd (last (loss s)) (mat_sum (dot (mat_T (grad_f_Wk s)) (mat_sub (Wk1 s) (Wk s)))))
          (fmul (L s) (D_h (Wk1 s) (Wk s) (tau s)))"

definition accept_fails :: "'a iter_locals_scheme \<Rightarrow> bool" where
  "accept_fails s = fgt (fk1 s) (accept_bound s)"

text \<open>
  Lines 216 to 241: one pass of the inner loop body. An exception is returned with the
  variables as they are when it is raised.
\<close>

definition retry :: "fl \<Rightarrow> fl \<Rightarrow> int \<Rightarrow> iter_locals \<Rightarrow> (error \<times> iter_locals) + iter_locals" where
  "retry lam rho1 threshold s =
     (let s1 = s\<lparr>flag := 1, j := j s + 1\<rparr> in
      case py_pow rho1 (j s1) of
        Inl e \<Rightarrow> Inl (e, s1)
      | Inr p \<Rightarrow>
          if fgt p (Fin float_max) \<or> int (j s1) = threshold then Inl (OverflowError, s1)
          else
            (let s2 = s1\<lparr>L := fmul (L s1) rho1\<rparr> in
             case py_truediv (fadd (Fin 1) lam) (L s2) of
               Inl e \<Rightarrow> Inl (e, s2)
             | Inr a \<Rightarrow>
                 (let W = step2_retry (tau s2) (t1 s2) (Wk s2) a (grad_f_Wk s2);
                      self' = update_factors (self s2) W
                  in Inr (s2\<lparr>alpha_k := a, Wk1 := W, self := self',
                               fk1 := calculate_loss self'\<rparr>))))"

text \<open>
  Lines 213 to 241: the inner loop. It has no bound of its own, so it is a partial
  function: \<open>None\<close> is a loop that never ends.
\<close>

partial_function (option) backtrack ::
  "fl \<Rightarrow> fl \<Rightarrow> int \<Rightarrow> iter_locals \<Rightarrow> ((error \<times> iter_locals) + iter_locals) option" where
  "backtrack lam rho1 threshold s =
     (if accept_fails s then
        (case retry lam rho1 threshold s of
           Inl x \<Rightarrow> Some (Inl x)
         | Inr s' \<Rightarrow> backtrack lam rho1 threshold s')
      else Some (Inr s))"

text \<open>
  Lines 243 to 259: the commit of the accepted candidate. The loss is appended at line
  250; the RMSE evaluation of line 251 can raise; the flag returned with the variables
  tells whether the loop breaks on a NaN loss at line 257.
\<close>

definition commit :: "fl \<Rightarrow> fl \<Rightarrow> iter_locals \<Rightarrow> (error \<times> iter_locals) + (locals \<times> bool)" where
  "commit lam rho2 s =
     (let s1 = (if flag s = 1 then s\<lparr>L := fmul (L s) rho2\<rparr> else s);
          s2 = s1\<lparr>Wk := Wk1 s1\<rparr>
      in case py_truediv (fadd (Fin 1) lam) (L s2) of
           Inl e \<Rightarrow> Inl (e, s2)
         | Inr a \<Rightarrow>
            (let (m, n) = shape (A (self s2));
                 s3 = s2\<lparr>alpha_k := a, loss := loss s2 @ [fdiv (fk1 s2) (Fin (real (m * n)))]\<rparr>
             in case calculate_rmse (self s3) of
                  Inl e \<Rightarrow> Inl (e, s3)
                | Inr r \<Rightarrow>
                   (let s4 = s3\<lparr>rmse := rmse s3 @ [r]\<rparr>
                    in Inr (locals.truncate s4, isnan (fk1 s4)))))"

text \<open>
  Lines 172 to 210: the gradient, the first candidate, written to the object at once, and
  its loss; \<^verbatim>\<open>j\<close> and \<^verbatim>\<open>flag\<close> start at 0.
\<close>

definition propose :: "locals \<Rightarrow> iter_locals" where
  "propose v =
     (let g = gradient (self v);
          W = step2 (tau v) (t1 v) (Wk v) (alpha_k v) g;
          self' = update_factors (self v) W
      in locals.extend (v\<lparr>self := self'\<rparr>)
           (iter_locals.fields g W (calculate_loss self') 0 0))"

text \<open>Lines 172 to 259: the body of the outer loop.\<close>

definition iteration ::
  "fl \<Rightarrow> fl \<Rightarrow> fl \<Rightarrow> int \<Rightarrow> locals \<Rightarrow> ((error \<times> iter_locals) + (locals \<times> bool)) option" where
  "iteration lam rho1 rho2 threshold v =
     (case backtrack lam rho1 threshold (propose v) of
        None \<Rightarrow> None
      | Some (Inl x) \<Rightarrow> Some (Inl x)
      | Some (Inr s') \<Rightarrow> Some (commit lam rho2 s'))"

text \<open>
  Line 170: \<^verbatim>\<open>for i in range(self.iterations)\<close>, from index \<open>ix\<close> with \<open>r\<close> indices left.
\<close>

fun outer_loop ::
  "fl \<Rightarrow> fl \<Rightarrow> fl \<Rightarrow> int \<Rightarrow> nat \<Rightarrow> nat \<Rightarrow> locals \<Rightarrow> ((error \<times> iter_locals) + locals) option" where
  "outer_loop lam rho1 rho2 threshold ix 0 v = Some (Inr v)"
| "outer_loop lam rho1 rho2 threshold ix (Suc r) v =
     (case iteration lam rho1 rho2 threshold (v\<lparr>i := Some ix\<rparr>) of
        None \<Rightarrow> None
      | Some (Inl x) \<Rightarrow> Some (Inl x)
      | Some (Inr (v', brk)) \<Rightarrow>
          if brk then Some (Inr v') else outer_loop lam rho1 rho2 threshold (Suc ix) r v')"

text \<open>
  The method. An exception leaves the object as the loop left it; the result record reads
  the loop variable \<^verbatim>\<open>i\<close>, which is unbound when the loop body never ran.
\<close>

definition MC_adaptive_2 ::
  "MatrixCompletion \<Rightarrow> fl \<Rightarrow> fl \<Rightarrow> fl \<Rightarrow> fl \<Rightarrow> int
     \<Rightarrow> ((error + MCAdaptive2Result) \<times> MatrixCompletion) option" where
  "MC_adaptive_2 self0 lam L0 rho1 rho2 threshold =
     (case prologue self0 L0 of
        Inl e \<Rightarrow> Some (Inl e, self0)
      | Inr v \<Rightarrow>
         (case outer_loop lam rho1 rho2 threshold 0
                 (nat (MatrixCompletion.iterations self0)) v of
            None \<Rightarrow> None
          | Some (Inl (e, s)) \<Rightarrow> Some (Inl e, self s)
          | Some (Inr v') \<Rightarrow>
             (case i v' of
                None \<Rightarrow> Some (Inl UnboundLocalError, self v')
              | Some ix \<Rightarrow>
                  Some (Inr \<lparr>completed_matrix = dot (H1 (self v')) (H2 (self v')),
                             loss_history = loss v', iterations = int ix,
                             rmse_history = rmse v'\<rparr>,
                        self v'))))"

section \<open>The acceptance bound with the inner product\<close>

text \<open>
  The specification writes the acceptance test with the inner product of two stacked
  matrices, <G, D>: the sum of the products of corresponding entries. The three
  definitions of this section follow the specification's formula and not the source, whose
  \<^verbatim>\<open>G.T.dot(D).sum()\<close> adds all the entries of the product matrix (definitions \<open>D_h\<close> and
  \<open>accept_bound\<close>); the two are compared below. The kernel \<open>h\<close> is \<open>func_h\<close>, and its
  gradient at \<open>W2\<close> is \<open>W2\<close> scaled by the squared Frobenius norm of \<open>W2\<close> plus tau.
\<close>

definition inner_fro :: "matrix \<Rightarrow> matrix \<Rightarrow> fl" where
  "inner_fro G D = fsum (map2 fmul (concat G) (concat D))"

definition D_h_spec :: "matrix \<Rightarrow> matrix \<Rightarrow> fl \<Rightarrow> fl" where
  "D_h_spec W1 W2 tau0 =
     fsub (fsub (func_h W1 tau0) (func_h W2 tau0))
          (inner_fro (scal (fadd (fpow (norm_fro W2) 2) tau0) W2) (mat_sub W1 W2))"

definition spec_bound :: "fl \<Rightarrow> matrix \<Rightarrow> matrix \<Rightarrow> matrix \<Rightarrow> fl \<Rightarrow> fl \<Rightarrow> fl" where
  "spec_bound loss_last G Wc W L0 tau0 =
     fadd (fadd loss_last (inner_fro G (mat_sub Wc W))) (fmul L0 (D_h_spec Wc W tau0))"

section \<open>Auxiliary predicates\<close>

text \<open>
  What the inner loop leaves alone, relative to the variables \<open>v\<close> with which the outer
  iteration started, and the agreement between the object and the current candidate.
\<close>

definition kept :: "locals \<Rightarrow> iter_locals \<Rightarrow> bool" where
  "kept v u = (loss u = loss v \<and> rmse u = rmse v \<and> Wk u = Wk v \<and> tau u = tau v \<and>
     t1 u = t1 v \<and> i u = i v \<and> A (self u) = A (self v) \<and>
     grad_f_Wk u = gradient (self v) \<and>
     H1 (self u) = take (fst (shape (A (self v)))) (Wk1 u) \<and>
     H2 (self u) = mat_T (drop (fst (shape (A (self v)))) (Wk1 u)))"

text \<open>
  Well-shaped data: an \<open>m\<close> x \<open>n\<close> problem of rank \<open>kk\<close>, all three positive, whose data
  matrix and training mask are \<open>m\<close> x \<open>n\<close> and whose factors are \<open>m\<close> x \<open>kk\<close> and
  \<open>kk\<close> x \<open>n\<close>; variables whose stacked state has \<open>m + n\<close> rows of length \<open>kk\<close>; and
  variables of an iteration whose gradient and candidate have that shape too, the object
  holding the two parts of the candidate.
\<close>

definition obj_ok :: "nat \<Rightarrow> nat \<Rightarrow> nat \<Rightarrow> MatrixCompletion \<Rightarrow> bool" where
  "obj_ok m n kk s = (0 < m \<and> 0 < n \<and> 0 < kk \<and> has_shape (A s) m n \<and>
     has_shape (mask_tr s) m n \<and> has_shape (H1 s) m kk \<and> has_shape (H2 s) kk n)"

definition shapes_ok :: "nat \<Rightarrow> nat \<Rightarrow> nat \<Rightarrow> 'a locals_scheme \<Rightarrow> bool" where
  "shapes_ok m n kk v = (obj_ok m n kk (self v) \<and> has_shape (Wk v) (m + n) kk)"

definition cand_ok :: "nat \<Rightarrow> nat \<Rightarrow> nat \<Rightarrow> iter_locals \<Rightarrow> bool" where
  "cand_ok m n kk s = (shapes_ok m n kk s \<and> has_shape (grad_f_Wk s) (m + n) kk \<and>
     has_shape (Wk1 s) (m + n) kk \<and>
     H1 (self s) = take m (Wk1 s) \<and> H2 (self s) = mat_T (drop m (Wk1 s)))"

text \<open>
  The sum of the two cube roots of Cardano's formula for the depressed cubic
  \<open>u ^ 3 = 2 * q + 3 * p * u\<close>.
\<close>

definition cardano_u :: "real \<Rightarrow> real \<Rightarrow> real" where
  "cardano_u q p =
     (q + sqrt (q ^ 2 - p ^ 3)) powr (1 / 3) + (q - sqrt (q ^ 2 - p ^ 3)) powr (1 / 3)"

section \<open>Concrete inputs\<close>

text \<open>A 1 x 1 problem whose data matrix has Frobenius norm 6.\<close>

definition obj_six :: MatrixCompletion where
  "obj_six = \<lparr>A = [[Fin 6]], mask_tr = [[Fin 1]], test_matrix = [[Fin 6]],
     test_mask = [[Fin 1]], k = 1, mu = Fin 0, iterations = 1,
     H1 = [[Fin 1]], H2 = [[Fin 1]]\<rparr>"

text \<open>The variables with which the setup leaves \<open>obj_six\<close>, started with \<^verbatim>\<open>L = 1\<close>.\<close>

definition frame_six :: locals where
  "frame_six = \<lparr>self = obj_six, loss = [Fin (25 / 2)], rmse = [Fin 5],
     Wk = [[Fin 1], [Fin 1]], alpha_k = Fin 1, L = Fin 1, tau = Fin 2,
     tau1 = Fin (- (4 / 3)), t1 = Fin (- (4 / 9)), i = None\<rparr>"

text \<open>A sample sequence standing for the seeded generator: sample number \<open>ix\<close> is \<open>ix\<close>.\<close>

definition draws_ex :: "nat \<Rightarrow> real" where
  "draws_ex ix = real ix"

text \<open>
  A 1 x 1 problem, all observed, with data 0 and both factors 1; its run with
  \<^verbatim>\<open>lam = 17\<close>, \<^verbatim>\<open>L = 1/4\<close>, \<^verbatim>\<open>rho1 = 4\<close>, \<^verbatim>\<open>rho2 = 1/2\<close>: the variables after the
  setup, the first candidate (rejected), the second candidate (accepted), the variables
  after the commit and the record returned.
\<close>

definition obj_a :: MatrixCompletion where
  "obj_a = \<lparr>A = [[Fin 0]], mask_tr = [[Fin 1]], test_matrix = [[Fin 0]],
     test_mask = [[Fin 1]], k = 1, mu = Fin 0, iterations = 1,
     H1 = [[Fin 1]], H2 = [[Fin 1]]\<rparr>"

definition frame_a :: locals where
  "frame_a = \<lparr>self = obj_a, loss = [Fin (1 / 2)], rmse = [Fin 1], Wk = [[Fin 1], [Fin 1]],
     alpha_k = Fin 4, L = Fin (1 / 4), tau = Fin 0, tau1 = Fin 0, t1 = Fin 0, i = None\<rparr>"

definition cand_a :: iter_locals where
  "cand_a = \<lparr>self = obj_a\<lparr>H1 := [[Fin (- 1)]], H2 := [[Fin (- 1)]]\<rparr>, loss = [Fin (1 / 2)],
     rmse = [Fin 1], Wk = [[Fin 1], [Fin 1]], alpha_k = Fin 4, L = Fin (1 / 4), tau = Fin 0,
     tau1 = Fin 0, t1 = Fin 0, i = Some 0, grad_f_Wk = [[Fin 1], [Fin 1]],
     Wk1 = [[Fin (- 1)], [Fin (- 1)]], fk1 = Fin (1 / 2), j = 0, flag = 0\<rparr>"

definition cand_a2 :: iter_locals where
  "cand_a2 = \<lparr>self = obj_a\<lparr>H1 := [[Fin (- 2)]], H2 := [[Fin (- 2)]]\<rparr>, loss = [Fin (1 / 2)],
     rmse = [Fin 1], Wk = [[Fin 1], [Fin 1]], alpha_k = Fin 18, L = Fin 1, tau = Fin 0,
     tau1 = Fin 0, t1 = Fin 0, i = Some 0, grad_f_Wk = [[Fin 1], [Fin 1]],
     Wk1 = [[Fin (- 2)], [Fin (- 2)]], fk1 = Fin 8, j = 1, flag = 1\<rparr>"

definition frame_a2 :: locals where
  "frame_a2 = \<lparr>self = obj_a\<lparr>H1 := [[Fin (- 2)]], H2 := [[Fin (- 2)]]\<rparr>,
     loss = [Fin (1 / 2), Fin 8], rmse = [Fin 1, Fin 4], Wk = [[Fin (- 2)], [Fin (- 2)]],
     alpha_k = Fin 36, L = Fin (1 / 2), tau = Fin 0, tau1 = Fin 0, t1 = Fin 0, i = Some 0\<rparr>"

definition result_a :: MCAdaptive2Result where
  "result_a = \<lparr>completed_matrix = [[Fin 4]], loss_history = [Fin (1 / 2), Fin 8],
     iterations = 0, rmse_history = [Fin 1, Fin 4]\<rparr>"

text \<open>
  A 1 x 1 problem whose data entry is NaN, with an iteration budget of 3; the variables
  after its setup with \<^verbatim>\<open>L = 1\<close>, and the variables at line 251 of its first iteration,
  run with \<^verbatim>\<open>lam = 1\<close>.
\<close>

definition obj_nan :: MatrixCompletion where
  "obj_nan = \<lparr>A = [[NaN]], mask_tr = [[Fin 1]], test_matrix = [[Fin 0]],
     test_mask = [[Fin 1]], k = 1, mu = Fin 0, iterations = 3,
     H1 = [[Fin 1]], H2 = [[Fin 1]]\<rparr>"

definition frame_nan :: locals where
  "frame_nan = \<lparr>self = obj_nan, loss = [NaN], rmse = [Fin 1], Wk = [[Fin 1], [Fin 1]],
     alpha_k = Fin 1, L = Fin 1, tau = NaN, tau1 = NaN, t1 = NaN, i = None\<rparr>"

definition raise_nan :: iter_locals where
  "raise_nan = \<lparr>self = obj_nan\<lparr>H1 := [[NaN]], H2 := [[NaN]]\<rparr>, loss = [NaN, NaN],
     rmse = [Fin 1], Wk = [[NaN], [NaN]], alpha_k = Fin 2, L = Fin 1, tau = NaN,
     tau1 = NaN, t1 = NaN, i = Some 0, grad_f_Wk = [[NaN], [NaN]],
     Wk1 = [[NaN], [NaN]], fk1 = NaN, j = 0, flag = 0\<rparr>"

text \<open>
  A 1 x 2 problem of rank 1; the variables after its setup with \<^verbatim>\<open>L = 1/4\<close>, and the
  variables of its first iteration after the proposal.
\<close>

definition obj_b :: MatrixCompletion where
  "obj_b = \<lparr>A = [[Fin 0, Fin 0]], mask_tr = [[Fin 1, Fin 1]], test_matrix = [[Fin 0, Fin 0]],
     test_mask = [[Fin 0, Fin 1]], k = 1, mu = Fin 0, iterations = 1,
     H1 = [[Fin 1]], H2 = [[Fin 1, Fin 0]]\<rparr>"

definition frame_b :: locals where
  "frame_b = \<lparr>self = obj_b, loss = [Fin (1 / 4)], rmse = [Fin 0],
     Wk = [[Fin 1], [Fin 1], [Fin 0]], alpha_k = Fin 4, L = Fin (1 / 4), tau = Fin 0,
     tau1 = Fin 0, t1 = Fin 0, i = None\<rparr>"

definition cand_b :: iter_locals where
  "cand_b = \<lparr>self = obj_b\<lparr>H1 := [[Fin (- 1)]], H2 := [[Fin (- 1), Fin 0]]\<rparr>,
     loss = [Fin (1 / 4)], rmse = [Fin 0], Wk = [[Fin 1], [Fin 1], [Fin 0]], alpha_k = Fin 4,
     L = Fin (1 / 4), tau = Fin 0, tau1 = Fin 0, t1 = Fin 0, i = Some 0,
     grad_f_Wk = [[Fin 1], [Fin 1], [Fin 0]], Wk1 = [[Fin (- 1)], [Fin (- 1)], [Fin 0]],
     fk1 = Fin (1 / 2), j = 0, flag = 0\<rparr>"

text \<open>
  A 1 x 1 problem with data entry 9 and \<^verbatim>\<open>mu = 21/2\<close>, for which \<^verbatim>\<open>tau = 3\<close> and
  \<^verbatim>\<open>t1 = -1\<close>; the variables after its setup with \<^verbatim>\<open>L = 1/4\<close>, and the variables of
  its first iteration after the proposal.
\<close>

definition obj_c :: MatrixCompletion where
  "obj_c = \<lparr>A = [[Fin 9]], mask_tr = [[Fin 1]], test_matrix = [[Fin (1 / 4)]],
     test_mask = [[Fin 1]], k = 1, mu = Fin (21 / 2), iterations = 1,
     H1 = [[Fin (1 / 2)]], H2 = [[Fin (1 / 2)]]\<rparr>"

definition frame_c :: locals where
  "frame_c = \<lparr>self = obj_c, loss = [Fin (1225 / 32)], rmse = [Fin 0],
     Wk = [[Fin (1 / 2)], [Fin (1 / 2)]], alpha_k = Fin 4, L = Fin (1 / 4), tau = Fin 3,
     tau1 = Fin (- 3), t1 = Fin (- 1), i = None\<rparr>"

definition cand_c :: iter_locals where
  "cand_c = \<lparr>self = obj_c\<lparr>H1 := [[Fin (- (1 / 2))]], H2 := [[Fin (- (1 / 2))]]\<rparr>,
     loss = [Fin (1225 / 32)], rmse = [Fin 0], Wk = [[Fin (1 / 2)], [Fin (1 / 2)]],
     alpha_k = Fin 4, L = Fin (1 / 4), tau = Fin 3, tau1 = Fin (- 3), t1 = Fin (- 1),
     i = Some 0, grad_f_Wk = [[Fin (7 / 8)], [Fin (7 / 8)]],
     Wk1 = [[Fin (- (1 / 2))], [Fin (- (1 / 2))]], fk1 = Fin (1225 / 32), j = 0, flag = 0\<rparr>"

section \<open>Evaluation lemmas\<close>

lemmas mat_defs = multiply_def mat_sub_def mat_add_def dot_def mat_T_def shape_def fsum_def
  fsub_def norm_fro_def scal_def vstack_def mat_sum_def

lemmas num_defs = numeral_2_eq_2 numeral_3_eq_3

lemma nthr_3: "nthr a 3 = Inr (fpowr a (1 / 3))"
  by (simp add: nthr_def)

lemma nthr3_eq: "nthr3 a = fpowr a (1 / 3)"
  by (simp add: nthr3_def nthr_3)

lemma cbrt_cube:
  assumes "0 < x"
  shows "(x ^ 3) powr (1 / 3) = (x::real)"
proof -
  have "x powr 3 = x ^ 3"
    using powr_realpow [OF assms, of 3] by simp
  then have "(x ^ 3) powr (1 / 3) = (x powr 3) powr (1 / 3)"
    by (simp only:)
  also have "\<dots> = x powr (3 * (1 / 3))"
    by (rule powr_powr)
  also have "\<dots> = x"
    using assms by simp
  finally show ?thesis .
qed

lemma cbrt_8: "(8::real) powr (1 / 3) = 2"
  using cbrt_cube [of 2] by simp

lemma cbrt_512: "(512::real) powr (1 / 3) = 8"
  using cbrt_cube [of 8] by simp

lemma sqrt_16: "sqrt 16 = 4"
  using real_sqrt_abs [of 4] by simp

lemma sqrt_36: "sqrt 36 = 6"
  using real_sqrt_abs [of 6] by simp

lemma sqrt_65536: "sqrt 65536 = 256"
  using real_sqrt_abs [of 256] by simp

lemmas root_evals = sqrt_16 cbrt_8 sqrt_65536 cbrt_512

section \<open>The setup scalars (C1)\<close>

lemma sqrt_25: "sqrt 25 = 5"
  using real_sqrt_abs [of 5] by simp

lemma prologue_six: "prologue obj_six (Fin 1) = Inr frame_six"
  by (simp add: prologue_def frame_six_def obj_six_def calculate_loss_def calculate_rmse_def
      at_nonzero_def mean_squared_error_def py_truediv_def Let_def mat_defs num_defs
      sqrt_36 sqrt_25)

text \<open>
  C1, as the spec states it: tau = ||A||_F / 3, tau1 = -tau^3 / 3, t1 = tau1 / 3. The
  source squares tau where the claim cubes it. For the 1 x 1 matrix with entry 6 the
  method computes tau = 2 and tau1 = -4/3, while the claimed -tau^3 / 3 is -8/3.
\<close>

theorem setup_scalars_counterexample:
  "prologue obj_six (Fin 1) = Inr frame_six \<and>
   tau frame_six = Fin 2 \<and> tau1 frame_six = Fin (- (4 / 3)) \<and>
   fdiv (fneg (fpow (tau frame_six) 3)) (Fin 3) = Fin (- (8 / 3))"
  by (simp add: prologue_six frame_six_def num_defs)

text \<open>
  C1, amended: whenever the setup completes (the baseline RMSE is computed without error
  and the initial \<^verbatim>\<open>L\<close> is not zero), for every input matrix \<^verbatim>\<open>A\<close>,
  tau = ||A||_F / 3, tau1 = -(tau^2) / 3 and t1 = tau1 / 3.
\<close>

theorem setup_scalars:
  assumes "prologue self0 L0 = Inr v"
  shows "tau v = fdiv (norm_fro (A self0)) (Fin 3) \<and>
         tau1 v = fdiv (fneg (fpow (tau v) 2)) (Fin 3) \<and>
         t1 v = fdiv (tau1 v) (Fin 3)"
  using assms
  by (auto simp: prologue_def Let_def split: prod.splits sum.splits)

text \<open>The amended C1 at the 1 x 1 matrix with entry 6 and \<^verbatim>\<open>L = 1\<close>.\<close>

theorem setup_scalars_witness:
  "prologue obj_six (Fin 1) = Inr frame_six \<and>
   tau frame_six = fdiv (norm_fro (A obj_six)) (Fin 3) \<and>
   tau1 frame_six = fdiv (fneg (fpow (tau frame_six) 2)) (Fin 3) \<and>
   t1 frame_six = fdiv (tau1 frame_six) (Fin 3)"
  using setup_scalars [OF prologue_six] prologue_six by blast

section \<open>The n-th root helper (C2)\<close>

text \<open>
  C2: for a negative \<open>a\<close> and an odd \<open>n\<close>, \<^verbatim>\<open>nthr(a, n)\<close> should be the negative real
  root, so \<^verbatim>\<open>nthr(-8, 3)\<close> should be -2. The source computes \<^verbatim>\<open>pow(a, 1 / n)\<close>, which
  has no real value for a negative base and the exponent 1/3: the result is NaN.
\<close>

theorem nthr_negative_cube: "nthr (Fin (- 8)) 3 = Inr NaN"
  by (simp add: nthr_def)

section \<open>Construction (C3)\<close>

lemma randn_shape:
  "0 \<le> r \<Longrightarrow> 0 \<le> c \<Longrightarrow>
     \<exists>M. randn draws off r c = Inr M \<and> has_shape M (nat r) (nat c)"
  by (simp add: randn_def has_shape_def list_all_iff)

text \<open>
  C3, as the spec states it: a training mask whose shape differs from that of \<^verbatim>\<open>A\<close> makes
  construction fail, and no factor is initialised. The constructor compares no shapes:
  with a 1 x 2 matrix \<^verbatim>\<open>A\<close> and a 1 x 1 mask it returns an object, with both factors drawn.
\<close>

theorem init_mismatch_counterexample:
  "shape [[Fin 1]] \<noteq> shape [[Fin 1, Fin 2]] \<and>
   init draws_ex [[Fin 1, Fin 2]] [[Fin 1]] [[Fin 1, Fin 2]] [[Fin 1, Fin 0]] 1 (Fin 0) 1 =
     Inr \<lparr>A = [[Fin 1, Fin 2]], mask_tr = [[Fin 1]], test_matrix = [[Fin 1, Fin 2]],
          test_mask = [[Fin 1, Fin 0]], k = 1, mu = Fin 0, iterations = 1,
          H1 = [[Fin 0]], H2 = [[Fin 1, Fin 2]]\<rparr>"
  by (simp add: init_def randn_def shape_def draws_ex_def upt_rec)

text \<open>
  C3, amended: construction validates no shape. For every data matrix of shape m x n and
  every rank \<open>k \<ge> 0\<close>, whatever the masks and the test matrix are, it succeeds, stores its
  arguments and draws \<^verbatim>\<open>H1\<close> of shape m x k and \<^verbatim>\<open>H2\<close> of shape k x n.
\<close>

theorem init_no_validation:
  assumes "0 \<le> k0" and "shape A0 = (m, n)"
  shows "\<exists>obj. init draws A0 mask0 test0 test_mask0 k0 mu0 iterations0 = Inr obj \<and>
           A obj = A0 \<and> mask_tr obj = mask0 \<and> test_matrix obj = test0 \<and>
           test_mask obj = test_mask0 \<and>
           has_shape (H1 obj) m (nat k0) \<and> has_shape (H2 obj) (nat k0) n"
proof -
  obtain h1 where h1: "randn draws 0 (int m) k0 = Inr h1" "has_shape h1 m (nat k0)"
    using randn_shape [of "int m" k0 draws 0] assms(1) by auto
  obtain h2 where h2: "randn draws (m * nat k0) k0 (int n) = Inr h2" "has_shape h2 (nat k0) n"
    using randn_shape [of k0 "int n" draws "m * nat k0"] assms(1) by auto
  show ?thesis
    using h1 h2 assms(2) by (simp add: init_def)
qed

text \<open>The amended C3 at a 1 x 2 data matrix with a 1 x 1 training mask and rank 1.\<close>

theorem init_no_validation_witness:
  "(0::int) \<le> 1 \<and> shape [[Fin 1, Fin 2]] = (1, 2) \<and>
   (\<exists>obj. init draws_ex [[Fin 1, Fin 2]] [[Fin 1]] [[Fin 1, Fin 2]] [[Fin 1, Fin 0]] 1 (Fin 0) 1
             = Inr obj \<and>
           A obj = [[Fin 1, Fin 2]] \<and> mask_tr obj = [[Fin 1]] \<and>
           test_matrix obj = [[Fin 1, Fin 2]] \<and> test_mask obj = [[Fin 1, Fin 0]] \<and>
           has_shape (H1 obj) 1 (nat 1) \<and> has_shape (H2 obj) (nat 1) 2)"
  using init_no_validation [of 1 "[[Fin 1, Fin 2]]" 1 2 draws_ex "[[Fin 1]]"
      "[[Fin 1, Fin 2]]" "[[Fin 1, Fin 0]]" "Fin 0" 1]
  by (simp add: shape_def)

section \<open>The loops\<close>

subsection \<open>The inner loop\<close>

lemma py_pow_error: "py_pow x n = Inl e \<Longrightarrow> e = OverflowError"
  by (auto simp: py_pow_def split: fl.splits if_splits)

lemma py_truediv_error: "py_truediv x y = Inl e \<Longrightarrow> e = ZeroDivisionError \<and> y = Fin 0"
  by (auto simp: py_truediv_def split: if_splits)

lemma update_factors_simps [simp]:
  "A (update_factors s W) = A s"
  "mask_tr (update_factors s W) = mask_tr s"
  "test_matrix (update_factors s W) = test_matrix s"
  "test_mask (update_factors s W) = test_mask s"
  "mu (update_factors s W) = mu s"
  "H1 (update_factors s W) = take (fst (shape (A s))) W"
  "H2 (update_factors s W) = mat_T (drop (fst (shape (A s))) W)"
  by (simp_all add: update_factors_def Let_def)

lemma retry_Inr:
  assumes "retry lam rho1 threshold s = Inr s'"
  shows "loss s' = loss s" "rmse s' = rmse s" "Wk s' = Wk s" "tau s' = tau s" "t1 s' = t1 s"
    "tau1 s' = tau1 s" "i s' = i s" "grad_f_Wk s' = grad_f_Wk s" "j s' = Suc (j s)" "flag s' = 1"
    "int (j s') \<noteq> threshold" "L s' = fmul (L s) rho1"
    "py_truediv (fadd (Fin 1) lam) (L s') = Inr (alpha_k s')"
    "Wk1 s' = step2_retry (tau s) (t1 s) (Wk s) (alpha_k s') (grad_f_Wk s)"
    "self s' = update_factors (self s) (Wk1 s')"
    "fk1 s' = calculate_loss (self s')"
  using assms
  by (auto simp: retry_def Let_def split: sum.splits if_splits)

lemma retry_Inl:
  assumes "retry lam rho1 threshold s = Inl (e, s')"
  shows "self s' = self s" "Wk1 s' = Wk1 s" "fk1 s' = fk1 s" "loss s' = loss s" "rmse s' = rmse s"
    "Wk s' = Wk s" "tau s' = tau s" "grad_f_Wk s' = grad_f_Wk s" "i s' = i s" "j s' = Suc (j s)"
    "e = OverflowError \<or> e = ZeroDivisionError"
    "e = OverflowError \<Longrightarrow> L s' = L s"
    "e = ZeroDivisionError \<Longrightarrow> fmul (L s) rho1 = Fin 0"
  using assms
  by (auto simp: retry_def Let_def split: sum.splits if_splits
      dest: py_pow_error py_truediv_error)

lemma backtrack_rule_aux:
  assumes "backtrack lam rho1 threshold s = Some r"
  shows "(\<forall>u u'. Inv u \<and> accept_fails u \<and> retry lam rho1 threshold u = Inr u' \<longrightarrow> Inv u') \<longrightarrow>
         Inv s \<longrightarrow>
         (\<forall>s'. r = Inr s' \<longrightarrow> Inv s' \<and> \<not> accept_fails s') \<and>
         (\<forall>x. r = Inl x \<longrightarrow> (\<exists>u. Inv u \<and> accept_fails u \<and> retry lam rho1 threshold u = Inl x))"
proof (rule backtrack.raw_induct [OF _ assms], intro impI)
  fix bt lam rho1 threshold s r
  assume IH: "\<And>lam rho1 threshold s r. bt lam rho1 threshold s = Some r \<Longrightarrow>
      (\<forall>u u'. Inv u \<and> accept_fails u \<and> retry lam rho1 threshold u = Inr u' \<longrightarrow> Inv u') \<longrightarrow>
      Inv s \<longrightarrow>
      (\<forall>s'. r = Inr s' \<longrightarrow> Inv s' \<and> \<not> accept_fails s') \<and>
      (\<forall>x. r = Inl x \<longrightarrow> (\<exists>u. Inv u \<and> accept_fails u \<and> retry lam rho1 threshold u = Inl x))"
    and body: "(if accept_fails s
         then case retry lam rho1 threshold s of
                Inl x \<Rightarrow> Some (Inl x)
              | Inr s' \<Rightarrow> bt lam rho1 threshold s'
         else Some (Inr s)) = Some r"
    and step: "\<forall>u u'. Inv u \<and> accept_fails u \<and> retry lam rho1 threshold u = Inr u' \<longrightarrow> Inv u'"
    and inv: "Inv s"
  show "(\<forall>s'. r = Inr s' \<longrightarrow> Inv s' \<and> \<not> accept_fails s') \<and>
        (\<forall>x. r = Inl x \<longrightarrow> (\<exists>u. Inv u \<and> accept_fails u \<and> retry lam rho1 threshold u = Inl x))"
  proof (cases "accept_fails s")
    case False
    with body inv show ?thesis by auto
  next
    case True
    show ?thesis
    proof (cases "retry lam rho1 threshold s")
      case (Inl x)
      with True body inv show ?thesis by auto
    next
      case (Inr u')
      with True body have "bt lam rho1 threshold u' = Some r" by simp
      moreover have "Inv u'" using step inv True Inr by blast
      ultimately show ?thesis using IH step by blast
    qed
  qed
qed

lemma backtrack_rule:
  assumes "backtrack lam rho1 threshold s = Some r"
    and "Inv s"
    and "\<And>u u'. Inv u \<Longrightarrow> accept_fails u \<Longrightarrow> retry lam rho1 threshold u = Inr u' \<Longrightarrow> Inv u'"
  shows "(\<forall>s'. r = Inr s' \<longrightarrow> Inv s' \<and> \<not> accept_fails s') \<and>
         (\<forall>x. r = Inl x \<longrightarrow> (\<exists>u. Inv u \<and> accept_fails u \<and> retry lam rho1 threshold u = Inl x))"
  using backtrack_rule_aux [OF assms(1), of Inv] assms(2,3) by blast

lemma backtrack_terminates:
  assumes "int (j s) < threshold"
  shows "\<exists>r. backtrack lam rho1 threshold s = Some r"
  using assms
proof (induction "nat threshold - j s" arbitrary: s rule: less_induct)
  case less
  show ?case
  proof (cases "accept_fails s")
    case False
    then show ?thesis by (subst backtrack.simps) simp
  next
    case True
    show ?thesis
    proof (cases "retry lam rho1 threshold s")
      case (Inl x)
      with True show ?thesis by (subst backtrack.simps) simp
    next
      case (Inr u')
      have ju: "j u' = Suc (j s)" "int (j u') \<noteq> threshold"
        using retry_Inr [OF Inr] by simp_all
      with less.prems have lt: "int (j u') < threshold" by simp
      have "nat threshold - j u' < nat threshold - j s"
        using ju less.prems by simp
      from less.hyps [OF this lt] obtain r where "backtrack lam rho1 threshold u' = Some r" ..
      with True Inr show ?thesis by (subst backtrack.simps) simp
    qed
  qed
qed


lemma calculate_rmse_error: "calculate_rmse s = Inl e \<Longrightarrow> e = ValueError"
  by (auto simp: calculate_rmse_def mean_squared_error_def Let_def
      split: sum.splits if_splits)

lemma commit_Inr:
  assumes "commit lam rho2 s = Inr (v', brk)"
  shows "brk = isnan (fk1 s)"
    "loss v' = loss s @ [fdiv (fk1 s) (Fin (real (fst (shape (A (self s))) * snd (shape (A (self s))))))]"
    "calculate_rmse (self s) = Inr (last (rmse v'))"
    "length (rmse v') = Suc (length (rmse s))"
    "self v' = self s" "Wk v' = Wk1 s" "i v' = i s" "tau v' = tau s" "t1 v' = t1 s"
    "tau1 v' = tau1 s"
    "L v' = (if flag s = 1 then fmul (L s) rho2 else L s)"
    "py_truediv (fadd (Fin 1) lam) (L v') = Inr (alpha_k v')"
  using assms
  by (auto simp: commit_def Let_def locals.truncate_def split: sum.splits if_splits prod.splits)

lemma commit_Inl:
  assumes "commit lam rho2 s = Inl (e, s')"
  shows "e = ZeroDivisionError \<or> e = ValueError" "self s' = self s" "Wk1 s' = Wk1 s"
  using assms
  by (auto simp: commit_def Let_def split: sum.splits if_splits prod.splits
      dest: py_truediv_error calculate_rmse_error)

lemma propose_simps [simp]:
  "loss (propose v) = loss v" "rmse (propose v) = rmse v" "Wk (propose v) = Wk v"
  "tau (propose v) = tau v" "t1 (propose v) = t1 v" "tau1 (propose v) = tau1 v"
  "i (propose v) = i v" "L (propose v) = L v" "alpha_k (propose v) = alpha_k v"
  "j (propose v) = 0" "flag (propose v) = 0"
  "grad_f_Wk (propose v) = gradient (self v)"
  "Wk1 (propose v) = step2 (tau v) (t1 v) (Wk v) (alpha_k v) (gradient (self v))"
  "self (propose v) = update_factors (self v) (Wk1 (propose v))"
  "fk1 (propose v) = calculate_loss (self (propose v))"
  by (simp_all add: propose_def Let_def locals.extend_def iter_locals.fields_def)

lemma iteration_cases:
  assumes "iteration lam rho1 rho2 threshold v = Some r"
  shows "(\<exists>x. r = Inl x \<and> backtrack lam rho1 threshold (propose v) = Some (Inl x)) \<or>
         (\<exists>s. backtrack lam rho1 threshold (propose v) = Some (Inr s) \<and> commit lam rho2 s = r)"
  using assms by (auto simp: iteration_def split: option.splits sum.splits)

lemma kept_propose: "kept v (propose v)"
  by (simp add: kept_def)

lemma kept_retry: "kept v u \<Longrightarrow> retry lam rho1 threshold u = Inr u' \<Longrightarrow> kept v u'"
  by (simp add: kept_def retry_Inr)

lemma backtrack_kept:
  assumes "backtrack lam rho1 threshold (propose v) = Some r"
  shows "(\<forall>s'. r = Inr s' \<longrightarrow> kept v s' \<and> \<not> accept_fails s') \<and>
         (\<forall>x. r = Inl x \<longrightarrow> (\<exists>u. kept v u \<and> accept_fails u \<and> retry lam rho1 threshold u = Inl x))"
  by (rule backtrack_rule [OF assms, of "kept v"]) (auto intro: kept_propose kept_retry)

lemma iteration_Inr:
  assumes "iteration lam rho1 rho2 threshold v = Some (Inr (v', brk))"
  shows "\<exists>s. backtrack lam rho1 threshold (propose v) = Some (Inr s) \<and> kept v s \<and>
           \<not> accept_fails s \<and> commit lam rho2 s = Inr (v', brk)"
  using iteration_cases [OF assms] backtrack_kept by blast

lemma iteration_Inr_history:
  assumes "iteration lam rho1 rho2 threshold v = Some (Inr (v', brk))"
  shows "\<exists>fk. brk = isnan fk \<and>
           loss v' = loss v @ [fdiv fk (Fin (real (fst (shape (A (self v))) * snd (shape (A (self v))))))]"
    and "length (rmse v') = Suc (length (rmse v))" and "i v' = i v" and "A (self v') = A (self v)"
proof -
  from iteration_Inr [OF assms] obtain s where
    s: "kept v s" "commit lam rho2 s = Inr (v', brk)" by blast
  show "\<exists>fk. brk = isnan fk \<and>
           loss v' = loss v @ [fdiv fk (Fin (real (fst (shape (A (self v))) * snd (shape (A (self v))))))]"
    using s commit_Inr(1,2) [OF s(2)] by (auto simp: kept_def)
  show "length (rmse v') = Suc (length (rmse v))" "i v' = i v" "A (self v') = A (self v)"
    using s commit_Inr [OF s(2)] by (auto simp: kept_def)
qed

lemma outer_loop_Inr:
  assumes "outer_loop lam rho1 rho2 threshold ix r v = Some (Inr v')"
  shows "(r = 0 \<and> v' = v) \<or>
         (\<exists>q. i v' = Some q \<and> ix \<le> q \<and> q < ix + r \<and>
              length (loss v') = length (loss v) + (q - ix) + 1 \<and>
              length (rmse v') = length (rmse v) + (q - ix) + 1)"
  using assms
proof (induction r arbitrary: ix v)
  case 0
  then show ?case by simp
next
  case (Suc r)
  from Suc.prems obtain v1 brk where
    it: "iteration lam rho1 rho2 threshold (v\<lparr>i := Some ix\<rparr>) = Some (Inr (v1, brk))"
    and rest: "if brk then v' = v1 else outer_loop lam rho1 rho2 threshold (Suc ix) r v1 = Some (Inr v')"
    by (auto split: option.splits sum.splits if_splits)
  from iteration_Inr_history [OF it]
  have v1: "length (loss v1) = Suc (length (loss v))" "length (rmse v1) = Suc (length (rmse v))"
    "i v1 = Some ix"
    by auto
  show ?case
  proof (cases brk)
    case True
    with rest v1 show ?thesis by auto
  next
    case False
    with rest have "outer_loop lam rho1 rho2 threshold (Suc ix) r v1 = Some (Inr v')" by simp
    from Suc.IH [OF this] v1 show ?thesis by auto
  qed
qed

lemma retry_Inl_zero:
  assumes "retry lam rho1 threshold s = Inl (ZeroDivisionError, s')"
  shows "L s' = Fin 0"
  using assms
  by (auto simp: retry_def Let_def split: sum.splits if_splits
      dest: py_pow_error py_truediv_error)

lemma accept_fails_cong:
  assumes "fk1 s' = fk1 s" "loss s' = loss s" "grad_f_Wk s' = grad_f_Wk s" "Wk1 s' = Wk1 s"
    "Wk s' = Wk s" "L s' = L s" "tau s' = tau s"
  shows "accept_fails s' = accept_fails s"
  using assms by (simp add: accept_fails_def accept_bound_def)

lemma prologue_Inr:
  assumes "prologue self0 L0 = Inr v"
  shows "self v = self0" "length (loss v) = 1" "length (rmse v) = 1" "i v = None" "L v = L0"
    "Wk v = vstack (H1 self0) (mat_T (H2 self0))" "L0 \<noteq> Fin 0"
  using assms
  by (auto simp: prologue_def Let_def py_truediv_def split: prod.splits sum.splits if_splits)

lemma iteration_Inl:
  assumes "iteration lam rho1 rho2 threshold v = Some (Inl (e, s))"
  shows "A (self s) = A (self v) \<and>
         H1 (self s) = take (fst (shape (A (self v)))) (Wk1 s) \<and>
         H2 (self s) = mat_T (drop (fst (shape (A (self v)))) (Wk1 s)) \<and>
         (e = OverflowError \<longrightarrow> accept_fails s \<and> Wk s = Wk v)"
proof -
  from iteration_cases [OF assms]
  consider (bt) "backtrack lam rho1 threshold (propose v) = Some (Inl (e, s))"
    | (cm) u where "backtrack lam rho1 threshold (propose v) = Some (Inr u)"
        "commit lam rho2 u = Inl (e, s)"
    by auto
  then show ?thesis
  proof cases
    case bt
    from backtrack_kept [OF bt] obtain u where
      u: "kept v u" "accept_fails u" "retry lam rho1 threshold u = Inl (e, s)" by blast
    note r = retry_Inl [OF u(3)]
    have "e = OverflowError \<longrightarrow> accept_fails s"
      using accept_fails_cong [of s u] r u(2) by simp
    with u(1) r show ?thesis by (simp add: kept_def)
  next
    case cm
    from backtrack_kept [OF cm(1)] have "kept v u" by blast
    with commit_Inl [OF cm(2)] show ?thesis by (auto simp: kept_def)
  qed
qed

lemma outer_loop_Inl:
  assumes "outer_loop lam rho1 rho2 threshold ix r v = Some (Inl (e, s))"
  shows "A (self s) = A (self v) \<and>
         H1 (self s) = take (fst (shape (A (self v)))) (Wk1 s) \<and>
         H2 (self s) = mat_T (drop (fst (shape (A (self v)))) (Wk1 s)) \<and>
         (e = OverflowError \<longrightarrow> accept_fails s)"
  using assms
proof (induction r arbitrary: ix v)
  case 0
  then show ?case by simp
next
  case (Suc r)
  from Suc.prems
  consider (here) "iteration lam rho1 rho2 threshold (v\<lparr>i := Some ix\<rparr>) = Some (Inl (e, s))"
    | (later) v1 where
        "iteration lam rho1 rho2 threshold (v\<lparr>i := Some ix\<rparr>) = Some (Inr (v1, False))"
        "outer_loop lam rho1 rho2 threshold (Suc ix) r v1 = Some (Inl (e, s))"
    by (auto split: option.splits sum.splits if_splits)
  then show ?case
  proof cases
    case here
    from iteration_Inl [OF here] show ?thesis by simp
  next
    case later
    from iteration_Inr_history(4) [OF later(1)] have "A (self v1) = A (self v)" by simp
    with Suc.IH [OF later(2)] show ?thesis by simp
  qed
qed

lemma backtrack_outcome:
  assumes "int (j s) < threshold"
  shows "\<exists>r. backtrack lam rho1 threshold s = Some r \<and>
           (\<forall>s'. r = Inr s' \<longrightarrow> \<not> accept_fails s' \<and> int (j s') < threshold) \<and>
           (\<forall>e s'. r = Inl (e, s') \<longrightarrow> int (j s') \<le> threshold \<and>
              (e = OverflowError \<and> accept_fails s' \<or> e = ZeroDivisionError \<and> L s' = Fin 0))"
proof -
  from backtrack_terminates [OF assms] obtain r where
    r: "backtrack lam rho1 threshold s = Some r" ..
  have step: "int (j u') < threshold"
    if "int (j u) < threshold" "accept_fails u" "retry lam rho1 threshold u = Inr u'" for u u'
  proof -
    have "j u' = Suc (j u)" "int (j u') \<noteq> threshold"
      using retry_Inr [OF that(3)] by simp_all
    with that(1) show ?thesis by simp
  qed
  note rule = backtrack_rule [OF r, of "\<lambda>u. int (j u) < threshold", OF assms step]
  have acc: "\<forall>s'. r = Inr s' \<longrightarrow> \<not> accept_fails s' \<and> int (j s') < threshold"
  proof (intro allI impI)
    fix s' assume "r = Inr s'"
    with rule have "int (j s') < threshold \<and> \<not> accept_fails s'" by simp
    then show "\<not> accept_fails s' \<and> int (j s') < threshold" by simp
  qed
  have err: "\<forall>e s'. r = Inl (e, s') \<longrightarrow> int (j s') \<le> threshold \<and>
              (e = OverflowError \<and> accept_fails s' \<or> e = ZeroDivisionError \<and> L s' = Fin 0)"
  proof (intro allI impI)
    fix e s' assume "r = Inl (e, s')"
    with rule have "\<exists>u. int (j u) < threshold \<and> accept_fails u \<and>
        retry lam rho1 threshold u = Inl (e, s')" by simp
    then obtain u where u: "int (j u) < threshold" "accept_fails u"
      "retry lam rho1 threshold u = Inl (e, s')" by (elim exE conjE)
    note ri = retry_Inl [OF u(3)]
    have 1: "int (j s') \<le> threshold" using ri(10) u(1) by simp
    have 2: "e = OverflowError \<Longrightarrow> accept_fails s'"
    proof -
      assume e: "e = OverflowError"
      have "accept_fails s' = accept_fails u"
        by (rule accept_fails_cong) (simp_all add: ri(1-9) ri(12) [OF e])
      with u(2) show "accept_fails s'" by simp
    qed
    have 3: "e = ZeroDivisionError \<Longrightarrow> L s' = Fin 0"
      using retry_Inl_zero [of lam rho1 threshold u s'] u(3) by simp
    from ri(11) show "int (j s') \<le> threshold \<and>
              (e = OverflowError \<and> accept_fails s' \<or> e = ZeroDivisionError \<and> L s' = Fin 0)"
    proof
      assume "e = OverflowError" with 1 2 show ?thesis by simp
    next
      assume "e = ZeroDivisionError" with 1 3 show ?thesis by simp
    qed
  qed
  show ?thesis
    by (rule exI [of _ r]) (intro conjI r acc err)
qed

lemma iteration_terminates:
  assumes "0 < threshold"
  shows "\<exists>r. iteration lam rho1 rho2 threshold v = Some r"
proof -
  have "int (j (propose v)) < threshold" using assms by simp
  from backtrack_terminates [OF this] obtain r where
    "backtrack lam rho1 threshold (propose v) = Some r" ..
  then show ?thesis by (cases r) (simp_all add: iteration_def)
qed

lemma outer_loop_terminates:
  assumes "0 < threshold"
  shows "\<exists>r. outer_loop lam rho1 rho2 threshold ix n v = Some r"
proof (induction n arbitrary: ix v)
  case 0
  show ?case by simp
next
  case (Suc n)
  from iteration_terminates [OF assms] obtain r where
    r: "iteration lam rho1 rho2 threshold (v\<lparr>i := Some ix\<rparr>) = Some r" ..
  show ?case
  proof (cases r)
    case (Inl x)
    with r show ?thesis by simp
  next
    case (Inr y)
    obtain v' brk where "y = (v', brk)" by (cases y)
    with r Inr Suc.IH [of "Suc ix" v'] show ?thesis by (cases brk) auto
  qed
qed

lemma run_terminates:
  assumes "0 < threshold"
  shows "\<exists>out obj. MC_adaptive_2 self0 lam L0 rho1 rho2 threshold = Some (out, obj)"
proof (cases "prologue self0 L0")
  case (Inl e)
  then show ?thesis by (simp add: MC_adaptive_2_def)
next
  case (Inr v)
  from outer_loop_terminates [OF assms] obtain r where
    "outer_loop lam rho1 rho2 threshold 0 (nat (MatrixCompletion.iterations self0)) v = Some r"
    by blast
  with Inr show ?thesis
    by (auto simp: MC_adaptive_2_def split: sum.splits option.splits prod.splits)
qed


section \<open>Concrete runs\<close>

subsection \<open>A run that backtracks once and accepts\<close>

lemma float_max_ge: "4 \<le> float_max"
proof -
  have "(1::real) \<le> 2 - 1 / 2 ^ 52" by simp
  moreover have "(4::real) \<le> 2 ^ 1023"
    using power_increasing [of 2 1023 "2::real"] by simp
  ultimately have "1 * 4 \<le> (2 - 1 / 2 ^ 52) * (2::real) ^ 1023"
    by (intro mult_mono) simp_all
  then show ?thesis by (simp add: float_max_def)
qed

lemma prologue_a: "prologue obj_a (Fin (1 / 4)) = Inr frame_a"
  by (simp add: prologue_def frame_a_def obj_a_def calculate_loss_def calculate_rmse_def
      at_nonzero_def mean_squared_error_def py_truediv_def Let_def mat_defs num_defs)

lemma propose_a: "propose (frame_a\<lparr>i := Some 0\<rparr>) = cand_a"
  by (simp add: propose_def frame_a_def cand_a_def obj_a_def gradient_def step2_def
      update_factors_def calculate_loss_def locals.extend_def iter_locals.fields_def
      Let_def mat_defs num_defs nthr3_eq root_evals)

lemma bound_a: "accept_bound cand_a = Fin (- (3 / 2))"
  by (simp add: accept_bound_def cand_a_def D_h_def func_h_def Let_def mat_defs num_defs
      eval_nat_numeral)

lemma fails_a: "accept_fails cand_a"
  by (simp add: accept_fails_def bound_a) (simp add: cand_a_def)

lemma retry_a: "retry (Fin 17) (Fin 4) 20 cand_a = Inr cand_a2"
  using float_max_ge
  by (simp add: retry_def cand_a_def cand_a2_def py_pow_def py_truediv_def
      step2_retry_def update_factors_def obj_a_def calculate_loss_def
      Let_def mat_defs num_defs nthr3_eq root_evals)

lemma bound_a2: "accept_bound cand_a2 = Fin (43 / 2)"
  by (simp add: accept_bound_def cand_a2_def D_h_def func_h_def Let_def mat_defs num_defs
      eval_nat_numeral)

lemma passes_a2: "\<not> accept_fails cand_a2"
  by (simp add: accept_fails_def bound_a2) (simp add: cand_a2_def)

lemma backtrack_a: "backtrack (Fin 17) (Fin 4) 20 cand_a = Some (Inr cand_a2)"
  by (subst backtrack.simps, simp add: fails_a retry_a, subst backtrack.simps,
      simp add: passes_a2)

lemma commit_a: "commit (Fin 17) (Fin (1 / 2)) cand_a2 = Inr (frame_a2, False)"
  by (simp add: commit_def cand_a2_def frame_a2_def py_truediv_def obj_a_def
      calculate_rmse_def at_nonzero_def mean_squared_error_def locals.truncate_def
      Let_def mat_defs num_defs sqrt_16)

lemma iteration_a:
  "iteration (Fin 17) (Fin 4) (Fin (1 / 2)) 20 (frame_a\<lparr>i := Some 0\<rparr>) = Some (Inr (frame_a2, False))"
  by (simp add: iteration_def propose_a backtrack_a commit_a)

lemma budget_a: "MatrixCompletion.iterations obj_a = 1"
  by (simp add: obj_a_def)

lemma outer_loop_a:
  "outer_loop (Fin 17) (Fin 4) (Fin (1 / 2)) 20 0 (Suc 0) frame_a = Some (Inr frame_a2)"
  by (simp add: iteration_a)

lemma run_a:
  "MC_adaptive_2 obj_a (Fin 17) (Fin (1 / 4)) (Fin 4) (Fin (1 / 2)) 20 =
     Some (Inr result_a, obj_a\<lparr>H1 := [[Fin (- 2)]], H2 := [[Fin (- 2)]]\<rparr>)"
  by (simp add: MC_adaptive_2_def prologue_a budget_a iteration_a)
    (simp add: frame_a2_def result_a_def mat_defs)

subsection \<open>The same problem with threshold 1, and with threshold 0\<close>

lemma retry_a_overflow:
  "retry (Fin 17) (Fin 4) 1 cand_a = Inl (OverflowError, cand_a\<lparr>flag := 1, j := 1\<rparr>)"
  using float_max_ge
  by (simp add: retry_def py_pow_def Let_def) (simp add: cand_a_def)

lemma backtrack_a_overflow:
  "backtrack (Fin 17) (Fin 4) 1 cand_a = Some (Inl (OverflowError, cand_a\<lparr>flag := 1, j := 1\<rparr>))"
  by (subst backtrack.simps) (simp add: fails_a retry_a_overflow)

lemma iteration_a_overflow:
  "iteration (Fin 17) (Fin 4) (Fin (1 / 2)) 1 (frame_a\<lparr>i := Some 0\<rparr>) =
     Some (Inl (OverflowError, cand_a\<lparr>flag := 1, j := 1\<rparr>))"
  by (simp add: iteration_def propose_a backtrack_a_overflow)

lemma run_a_overflow:
  "MC_adaptive_2 obj_a (Fin 17) (Fin (1 / 4)) (Fin 4) (Fin (1 / 2)) 1 =
     Some (Inl OverflowError, obj_a\<lparr>H1 := [[Fin (- 1)]], H2 := [[Fin (- 1)]]\<rparr>)"
  by (simp add: MC_adaptive_2_def prologue_a budget_a iteration_a_overflow)
    (simp add: cand_a_def)

lemma fpow_one: "fpow (Fin 1) n = Fin 1"
  by (induction n) simp_all

lemma fails_a_any: "accept_fails (cand_a\<lparr>j := n, flag := f\<rparr>)"
  using fails_a by (simp add: accept_fails_def accept_bound_def)

lemma retry_a_loop:
  "retry (Fin 0) (Fin 1) 0 (cand_a\<lparr>j := n, flag := f\<rparr>) = Inr (cand_a\<lparr>j := Suc n, flag := 1\<rparr>)"
  using float_max_ge
  by (simp add: retry_def cand_a_def py_pow_def py_truediv_def fpow_one
      step2_retry_def update_factors_def obj_a_def calculate_loss_def
      Let_def mat_defs num_defs nthr3_eq root_evals)

lemma backtrack_a_diverges_aux:
  assumes "backtrack lam rho1 threshold s = Some r"
  shows "lam = Fin 0 \<longrightarrow> rho1 = Fin 1 \<longrightarrow> threshold = 0 \<longrightarrow>
           (\<forall>n f. s \<noteq> cand_a\<lparr>j := n, flag := f\<rparr>)"
proof (rule backtrack.raw_induct [OF _ assms], intro impI allI notI)
  fix bt :: "fl \<Rightarrow> fl \<Rightarrow> int \<Rightarrow> iter_locals \<Rightarrow> ((error \<times> iter_locals) + iter_locals) option"
  fix lam rho1 threshold s r n f
  assume IH: "\<And>lam rho1 threshold s r. bt lam rho1 threshold s = Some r \<Longrightarrow>
      lam = Fin 0 \<longrightarrow> rho1 = Fin 1 \<longrightarrow> threshold = 0 \<longrightarrow>
           (\<forall>n f. s \<noteq> cand_a\<lparr>j := n, flag := f\<rparr>)"
    and body: "(if accept_fails s
         then case retry lam rho1 threshold s of
                Inl x \<Rightarrow> Some (Inl x)
              | Inr s' \<Rightarrow> bt lam rho1 threshold s'
         else Some (Inr s)) = Some r"
    and par: "lam = Fin 0" "rho1 = Fin 1" "threshold = 0"
    and s: "s = cand_a\<lparr>j := n, flag := f\<rparr>"
  from body par s have "bt (Fin 0) (Fin 1) 0 (cand_a\<lparr>j := Suc n, flag := 1\<rparr>) = Some r"
    by (simp add: fails_a_any retry_a_loop)
  from IH [OF this] show False by blast
qed

lemma backtrack_a_diverges: "backtrack (Fin 0) (Fin 1) 0 cand_a = None"
proof (cases "backtrack (Fin 0) (Fin 1) 0 cand_a")
  case None
  then show ?thesis .
next
  case (Some r)
  from backtrack_a_diverges_aux [OF Some] have "cand_a \<noteq> cand_a\<lparr>j := 0, flag := 0\<rparr>"
    by blast
  then show ?thesis by (simp add: cand_a_def)
qed

lemma run_a_diverges:
  "MC_adaptive_2 obj_a (Fin 0) (Fin (1 / 4)) (Fin 1) (Fin (1 / 2)) 0 = None"
  by (simp add: MC_adaptive_2_def prologue_a budget_a iteration_def propose_a
      backtrack_a_diverges)

subsection \<open>A run on a NaN entry\<close>

lemma prologue_nan: "prologue obj_nan (Fin 1) = Inr frame_nan"
  by (simp add: prologue_def frame_nan_def obj_nan_def calculate_loss_def calculate_rmse_def
      at_nonzero_def mean_squared_error_def py_truediv_def Let_def mat_defs num_defs)

lemma iteration_nan:
  "iteration (Fin 1) (Fin 2) (Fin (1 / 2)) 20 (frame_nan\<lparr>i := Some 0\<rparr>) =
     Some (Inl (ValueError, raise_nan))"
  apply (subst iteration_def)
  apply (subst backtrack.simps)
  apply (simp add: propose_def frame_nan_def raise_nan_def obj_nan_def gradient_def step2_def
      update_factors_def calculate_loss_def locals.extend_def iter_locals.fields_def
      accept_fails_def accept_bound_def D_h_def func_h_def
      commit_def py_truediv_def calculate_rmse_def at_nonzero_def mean_squared_error_def
      Let_def mat_defs num_defs nthr3_eq)
  done

lemma budget_nan: "MatrixCompletion.iterations obj_nan = 3"
  by (simp add: obj_nan_def)

lemma run_nan:
  "MC_adaptive_2 obj_nan (Fin 1) (Fin 1) (Fin 2) (Fin (1 / 2)) 20 =
     Some (Inl ValueError, obj_nan\<lparr>H1 := [[NaN]], H2 := [[NaN]]\<rparr>)"
  by (simp add: MC_adaptive_2_def prologue_nan budget_nan iteration_nan numeral_3_eq_3)
    (simp add: raise_nan_def)

section \<open>The iteration count of the result (C4)\<close>

text \<open>
  C4: the \<^verbatim>\<open>iterations\<close> field of the result should be the number of outer iterations
  executed, 1 when exactly one was executed. Each executed iteration appends one entry to
  the loss history after the baseline, so the number executed is the length of the history
  minus one. The source stores the last loop index \<^verbatim>\<open>i\<close>: for every run that returns,
  the field is the length of the history minus two, one less than the number executed, and
  it stays below the budget.
\<close>

theorem iterations_field:
  assumes "MC_adaptive_2 self0 lam L0 rho1 rho2 threshold = Some (Inr res, obj)"
  shows "int (length (loss_history res)) = iterations res + 2 \<and>
         length (rmse_history res) = length (loss_history res) \<and>
         0 \<le> iterations res \<and> iterations res < MatrixCompletion.iterations self0"
proof -
  from assms obtain v v' ix where
    p: "prologue self0 L0 = Inr v"
    and ol: "outer_loop lam rho1 rho2 threshold 0 (nat (MatrixCompletion.iterations self0)) v
               = Some (Inr v')"
    and ix: "i v' = Some ix"
    and res: "res = \<lparr>completed_matrix = dot (H1 (self v')) (H2 (self v')),
                loss_history = loss v', iterations = int ix, rmse_history = rmse v'\<rparr>"
    by (auto simp: MC_adaptive_2_def split: sum.splits option.splits prod.splits)
  note pv = prologue_Inr [OF p]
  from outer_loop_Inr [OF ol] ix pv(4)
  obtain q where q: "i v' = Some q" "q < nat (MatrixCompletion.iterations self0)"
    "length (loss v') = length (loss v) + q + 1" "length (rmse v') = length (rmse v) + q + 1"
    by auto
  with ix pv(2,3) res show ?thesis by auto
qed

text \<open>
  The run of \<open>obj_a\<close> with budget 1 executes one outer iteration (its history has two
  entries) and returns \<^verbatim>\<open>iterations = 0\<close>.
\<close>

theorem iterations_field_witness:
  "MC_adaptive_2 obj_a (Fin 17) (Fin (1 / 4)) (Fin 4) (Fin (1 / 2)) 20 =
     Some (Inr result_a, obj_a\<lparr>H1 := [[Fin (- 2)]], H2 := [[Fin (- 2)]]\<rparr>) \<and>
   MatrixCompletion.iterations obj_a = 1 \<and>
   length (loss_history result_a) = 2 \<and> iterations result_a = 0 \<and>
   int (length (loss_history result_a)) = iterations result_a + 2 \<and>
   length (rmse_history result_a) = length (loss_history result_a) \<and>
   0 \<le> iterations result_a \<and> iterations result_a < MatrixCompletion.iterations obj_a"
  using iterations_field [OF run_a] run_a budget_a by (simp add: result_a_def)

section \<open>The candidate of a retry (C5)\<close>

lemma sqrt_81: "sqrt 81 = 9"
  using real_sqrt_abs [of 9] by simp

lemma sqrt_3969_256: "sqrt (3969 / 256) = 63 / 16"
  using real_sqrt_abs [of "63 / 16"] by (simp add: power2_eq_square)

lemma cbrt_eighth: "((1 / 8)::real) powr (1 / 3) = 1 / 2"
  using cbrt_cube [of "1 / 2"] by (simp add: power3_eq_cube)

lemma prologue_c: "prologue obj_c (Fin (1 / 4)) = Inr frame_c"
  by (simp add: prologue_def frame_c_def obj_c_def calculate_loss_def calculate_rmse_def
      at_nonzero_def mean_squared_error_def py_truediv_def Let_def mat_defs num_defs sqrt_81)

lemma gradient_c: "gradient obj_c = [[Fin (7 / 8)], [Fin (7 / 8)]]"
  by (simp add: gradient_def obj_c_def mat_defs num_defs)

lemma step2_c:
  "step2 (Fin 3) (Fin (- 1)) [[Fin (1 / 2)], [Fin (1 / 2)]] (Fin 4)
     [[Fin (7 / 8)], [Fin (7 / 8)]] = [[Fin (- (1 / 2))], [Fin (- (1 / 2))]]"
  by (simp add: step2_def Let_def mat_defs num_defs nthr3_eq sqrt_3969_256 cbrt_8 cbrt_eighth)

lemma propose_c: "propose (frame_c\<lparr>i := Some 0\<rparr>) = cand_c"
  by (simp add: propose_def frame_c_def gradient_c step2_c)
    (simp add: cand_c_def obj_c_def update_factors_def calculate_loss_def locals.extend_def
      iter_locals.fields_def Let_def mat_defs num_defs)

lemma bound_c: "accept_bound cand_c = Fin (1197 / 32)"
  by (simp add: accept_bound_def cand_c_def D_h_def func_h_def Let_def mat_defs num_defs
      eval_nat_numeral)

lemma fails_c: "accept_fails cand_c"
  by (simp add: accept_fails_def bound_c) (simp add: cand_c_def)

lemma cbrt_pow3:
  assumes "0 < x"
  shows "(x powr (1 / 3)) ^ 3 = (x::real)"
proof -
  have pos: "0 < x powr (1 / 3)" using assms by simp
  have "(x powr (1 / 3)) ^ 3 = (x powr (1 / 3)) powr 3"
    using powr_realpow [OF pos, of 3] by simp
  also have "\<dots> = x powr ((1 / 3) * 3)" by (rule powr_powr)
  also have "\<dots> = x" using assms by simp
  finally show ?thesis .
qed

lemma cardano_parts:
  assumes "0 < q" "0 < p" "p ^ 3 \<le> q ^ 2"
  shows "0 < q - sqrt (q ^ 2 - p ^ 3)" "0 < q + sqrt (q ^ 2 - p ^ 3)"
    "(q + sqrt (q ^ 2 - p ^ 3)) * (q - sqrt (q ^ 2 - p ^ 3)) = p ^ 3"
proof -
  have d: "0 \<le> q ^ 2 - p ^ 3" using assms(3) by simp
  have "q ^ 2 - p ^ 3 < q ^ 2" using assms(2) by simp
  then have "sqrt (q ^ 2 - p ^ 3) < sqrt (q ^ 2)" by (simp only: real_sqrt_less_iff)
  also have "sqrt (q ^ 2) = q" using assms(1) by simp
  finally show "0 < q - sqrt (q ^ 2 - p ^ 3)" by simp
  have "0 \<le> sqrt (q ^ 2 - p ^ 3)" using d by (simp only: real_sqrt_ge_0_iff)
  with assms(1) show "0 < q + sqrt (q ^ 2 - p ^ 3)" by (rule add_pos_nonneg)
  have "(q + sqrt (q ^ 2 - p ^ 3)) * (q - sqrt (q ^ 2 - p ^ 3)) =
      q ^ 2 - (sqrt (q ^ 2 - p ^ 3)) ^ 2"
    by (simp add: algebra_simps power2_eq_square)
  also have "\<dots> = p ^ 3" using d by simp
  finally show "(q + sqrt (q ^ 2 - p ^ 3)) * (q - sqrt (q ^ 2 - p ^ 3)) = p ^ 3" .
qed

lemma cardano_u_cubic:
  assumes "0 < q" "0 < p" "p ^ 3 \<le> q ^ 2"
  shows "0 < cardano_u q p" "cardano_u q p ^ 3 = 2 * q + 3 * p * cardano_u q p"
proof -
  define T1 where "T1 = q + sqrt (q ^ 2 - p ^ 3)"
  define T2 where "T2 = q - sqrt (q ^ 2 - p ^ 3)"
  define a where "a = T1 powr (1 / 3)"
  define b where "b = T2 powr (1 / 3)"
  note parts = cardano_parts [OF assms, folded T1_def T2_def]
  have u: "cardano_u q p = a + b" by (simp add: cardano_u_def a_def b_def T1_def T2_def)
  have a: "0 < a" "a ^ 3 = T1" using parts(2) by (simp_all add: a_def cbrt_pow3)
  have b: "0 < b" "b ^ 3 = T2" using parts(1) by (simp_all add: b_def cbrt_pow3)
  have "a * b = (T1 * T2) powr (1 / 3)"
    using parts(1,2) by (simp add: a_def b_def powr_mult)
  also have "\<dots> = p" using parts(3) cbrt_cube [OF assms(2)] by simp
  finally have ab: "a * b = p" .
  have "(a + b) ^ 3 = a ^ 3 + b ^ 3 + 3 * (a * b) * (a + b)"
    by (simp add: power3_eq_cube algebra_simps)
  also have "\<dots> = 2 * q + 3 * p * (a + b)"
    by (simp only: a(2) b(2) ab) (simp add: T1_def T2_def)
  finally show "cardano_u q p ^ 3 = 2 * q + 3 * p * cardano_u q p" by (simp only: u)
  from a(1) b(1) show "0 < cardano_u q p" by (simp add: u)
qed

lemma cardano_u_differs:
  assumes "0 < q" "0 < p" "0 < p'" "p ^ 3 \<le> q ^ 2" "p' ^ 3 \<le> q ^ 2" "p \<noteq> p'"
  shows "cardano_u q p \<noteq> cardano_u q p'"
proof
  assume eq: "cardano_u q p = cardano_u q p'"
  note c = cardano_u_cubic [OF assms(1,2,4)] and c' = cardano_u_cubic [OF assms(1,3,5)]
  from c'(2) have "cardano_u q p ^ 3 = 2 * q + 3 * p' * cardano_u q p" by (simp only: eq)
  with c(2) have "3 * p * cardano_u q p = 3 * p' * cardano_u q p" by linarith
  moreover from c(1) have "cardano_u q p \<noteq> 0" by simp
  ultimately have "p = p'" by simp
  with assms(6) show False by simp
qed

lemma fpow_Fin: "fpow (Fin x) n = Fin (x ^ n)"
  by (induction n) simp_all

lemma step_t:
  assumes "0 < q" "0 < p" "p ^ 3 \<le> q ^ 2"
  shows "fadd (fadd (Fin c)
            (nthr3 (fadd (fneg (Fin (- q)))
                         (fsqrt (fadd (fpow (Fin (- q)) 2) (fpow (Fin (- p)) 3))))))
          (nthr3 (fsub (fneg (Fin (- q)))
                       (fsqrt (fadd (fpow (Fin (- q)) 2) (fpow (Fin (- p)) 3))))) =
         Fin (c + cardano_u q p)"
proof -
  note parts = cardano_parts [OF assms]
  have d: "\<not> q ^ 2 - p ^ 3 < 0" using assms(3) by simp
  have "fsqrt (fadd (fpow (Fin (- q)) 2) (fpow (Fin (- p)) 3)) = Fin (sqrt (q ^ 2 - p ^ 3))"
    using d by (simp add: fpow_Fin)
  then show ?thesis
    using parts(1,2) by (simp add: nthr3_eq fsub_def cardano_u_def)
qed

lemma step2_eval:
  assumes "mat_sub (scal (fadd (fpow (norm_fro W) 2) tau0) W) (scal alpha g) = G"
    and "fdiv (fdiv (fsub (fmul (Fin (- 2)) (fpow tau0 3))
                          (fmul (Fin 27) (fpow (norm_fro G) 2))) (Fin 27)) (Fin 2) = Fin (- q)"
    and "fdiv tau0 (Fin 3) = Fin c" and "t10 = Fin (- p)"
    and "0 < q" "0 < p" "p ^ 3 \<le> q ^ 2"
  shows "step2 tau0 t10 W alpha g = scal (fdiv (Fin 1) (Fin (c + cardano_u q p))) G"
  by (simp only: step2_def Let_def assms(1-4) step_t [OF assms(5-7)])

lemma step2_retry_eval:
  assumes "mat_sub (scal (fadd (fpow (norm_fro W) 2) tau0) W) (scal alpha g) = G"
    and "fdiv (fdiv (fsub (fmul (Fin (- 2)) (fpow tau0 3))
                          (fmul (Fin 27) (fpow (norm_fro G) 2))) (Fin 27)) (Fin 2) = Fin (- q)"
    and "fdiv tau0 (Fin 3) = Fin c" and "fdiv t10 (Fin 3) = Fin (- p)"
    and "0 < q" "0 < p" "p ^ 3 \<le> q ^ 2"
  shows "step2_retry tau0 t10 W alpha g = scal (fdiv (Fin 1) (Fin (c + cardano_u q p))) G"
  by (simp only: step2_retry_def Let_def assms(1-4) step_t [OF assms(5-7)])

lemma grad_c:
  "mat_sub (scal (fadd (fpow (norm_fro [[Fin (1 / 2)], [Fin (1 / 2)]]) 2) (Fin 3))
              [[Fin (1 / 2)], [Fin (1 / 2)]])
           (scal (Fin 1) [[Fin (7 / 8)], [Fin (7 / 8)]]) = [[Fin (7 / 8)], [Fin (7 / 8)]]"
  by (simp add: mat_defs num_defs)

lemma tau2_c:
  "fdiv (fdiv (fsub (fmul (Fin (- 2)) (fpow (Fin 3) 3))
                    (fmul (Fin 27) (fpow (norm_fro [[Fin (7 / 8)], [Fin (7 / 8)]]) 2)))
              (Fin 27)) (Fin 2) = Fin (- (113 / 64))"
  by (simp add: mat_defs num_defs)

lemma step2_c1:
  "step2 (Fin 3) (Fin (- 1)) [[Fin (1 / 2)], [Fin (1 / 2)]] (Fin 1)
     [[Fin (7 / 8)], [Fin (7 / 8)]] =
   scal (fdiv (Fin 1) (Fin (1 + cardano_u (113 / 64) 1))) [[Fin (7 / 8)], [Fin (7 / 8)]]"
  by (rule step2_eval [OF grad_c tau2_c]) (simp_all add: power2_eq_square)

lemma step2_retry_c1:
  "step2_retry (Fin 3) (Fin (- 1)) [[Fin (1 / 2)], [Fin (1 / 2)]] (Fin 1)
     [[Fin (7 / 8)], [Fin (7 / 8)]] =
   scal (fdiv (Fin 1) (Fin (1 + cardano_u (113 / 64) (1 / 3)))) [[Fin (7 / 8)], [Fin (7 / 8)]]"
  by (rule step2_retry_eval [OF grad_c tau2_c])
    (simp_all add: power2_eq_square power3_eq_cube)

lemma candidates_differ:
  "step2_retry (Fin 3) (Fin (- 1)) [[Fin (1 / 2)], [Fin (1 / 2)]] (Fin 1)
     [[Fin (7 / 8)], [Fin (7 / 8)]] \<noteq>
   step2 (Fin 3) (Fin (- 1)) [[Fin (1 / 2)], [Fin (1 / 2)]] (Fin 1)
     [[Fin (7 / 8)], [Fin (7 / 8)]]"
proof -
  have le: "(1::real) ^ 3 \<le> (113 / 64) ^ 2" "((1 / 3)::real) ^ 3 \<le> (113 / 64) ^ 2"
    by (simp_all add: power2_eq_square power3_eq_cube)
  have ne: "cardano_u (113 / 64) (1 / 3) \<noteq> cardano_u (113 / 64) 1"
    by (rule cardano_u_differs [OF _ _ _ le(2) le(1)]) simp_all
  have p: "0 < cardano_u (113 / 64) 1" "0 < cardano_u (113 / 64) (1 / 3)"
    by (rule cardano_u_cubic(1) [OF _ _ le(1)], simp, simp)
      (rule cardano_u_cubic(1) [OF _ _ le(2)], simp, simp)
  from p have nz: "1 + cardano_u (113 / 64) 1 \<noteq> 0" "1 + cardano_u (113 / 64) (1 / 3) \<noteq> 0"
    by simp_all
  show ?thesis
    using ne nz by (simp add: step2_c1 step2_retry_c1 scal_def)
qed

lemma retry_c:
  "\<exists>s. retry (Fin 0) (Fin 4) 20 cand_c = Inr s \<and> alpha_k s = Fin 1 \<and>
       tau s = Fin 3 \<and> t1 s = Fin (- 1) \<and> Wk s = [[Fin (1 / 2)], [Fin (1 / 2)]] \<and>
       grad_f_Wk s = [[Fin (7 / 8)], [Fin (7 / 8)]] \<and>
       Wk1 s = step2_retry (Fin 3) (Fin (- 1)) [[Fin (1 / 2)], [Fin (1 / 2)]] (Fin 1)
                 [[Fin (7 / 8)], [Fin (7 / 8)]]"
  using float_max_ge
  by (simp add: retry_def cand_c_def py_pow_def py_truediv_def Let_def)

text \<open>
  C5: a retry of the inner loop should redo step 2 with the updated \<^verbatim>\<open>alpha\<close> and the
  same discriminant, so that for equal \<^verbatim>\<open>alpha\<close>, \<^verbatim>\<open>Wk\<close> and gradient it yields the
  candidate that step 2 yields. Step 2 (lines 196 to 197) takes the square root of
  \<^verbatim>\<open>tau2**2 + t1**3\<close>, the retry (lines 235 to 236) of \<^verbatim>\<open>tau2**2 + (t1 / 3)**3\<close>. In
  the run of \<open>obj_c\<close> with \<^verbatim>\<open>lam = 0\<close>, \<^verbatim>\<open>L = 1/4\<close> and \<^verbatim>\<open>rho1 = 4\<close> the first candidate
  is rejected, and the candidate that the retry computes is not the one that step 2
  computes from the retry's own \<^verbatim>\<open>tau\<close>, \<^verbatim>\<open>t1\<close>, \<^verbatim>\<open>Wk\<close>, \<^verbatim>\<open>alpha_k\<close> and gradient.
\<close>

theorem retry_discriminant_differs:
  "prologue obj_c (Fin (1 / 4)) = Inr frame_c \<and>
   propose (frame_c\<lparr>i := Some 0\<rparr>) = cand_c \<and> accept_fails cand_c \<and>
   (\<exists>s. retry (Fin 0) (Fin 4) 20 cand_c = Inr s \<and>
        Wk1 s = step2_retry (tau s) (t1 s) (Wk s) (alpha_k s) (grad_f_Wk s) \<and>
        Wk1 s \<noteq> step2 (tau s) (t1 s) (Wk s) (alpha_k s) (grad_f_Wk s))"
proof -
  from retry_c obtain s where
    s: "retry (Fin 0) (Fin 4) 20 cand_c = Inr s" "alpha_k s = Fin 1" "tau s = Fin 3"
      "t1 s = Fin (- 1)" "Wk s = [[Fin (1 / 2)], [Fin (1 / 2)]]"
      "grad_f_Wk s = [[Fin (7 / 8)], [Fin (7 / 8)]]"
      "Wk1 s = step2_retry (Fin 3) (Fin (- 1)) [[Fin (1 / 2)], [Fin (1 / 2)]] (Fin 1)
                 [[Fin (7 / 8)], [Fin (7 / 8)]]"
    by blast
  from s(2-7) candidates_differ
  have "Wk1 s = step2_retry (tau s) (t1 s) (Wk s) (alpha_k s) (grad_f_Wk s) \<and>
        Wk1 s \<noteq> step2 (tau s) (t1 s) (Wk s) (alpha_k s) (grad_f_Wk s)"
    by simp
  with s(1) have "\<exists>s. retry (Fin 0) (Fin 4) 20 cand_c = Inr s \<and>
        Wk1 s = step2_retry (tau s) (t1 s) (Wk s) (alpha_k s) (grad_f_Wk s) \<and>
        Wk1 s \<noteq> step2 (tau s) (t1 s) (Wk s) (alpha_k s) (grad_f_Wk s)"
    by blast
  with prologue_c propose_c fails_c show ?thesis by simp
qed

section \<open>The shapes of the factors and of the stacked state (C6)\<close>

lemma hs_shape: "has_shape M r c \<Longrightarrow> 0 < r \<Longrightarrow> shape M = (r, c)"
  by (cases M) (auto simp: has_shape_def shape_def)

lemma hs_T: "has_shape M r c \<Longrightarrow> 0 < r \<Longrightarrow> has_shape (mat_T M) c r"
  using hs_shape [of M r c] by (simp add: mat_T_def has_shape_def list_all_iff)

lemma hs_dot:
  "has_shape M r q \<Longrightarrow> has_shape N q c \<Longrightarrow> 0 < q \<Longrightarrow> has_shape (dot M N) r c"
  using hs_T [of N q c] by (simp add: dot_def has_shape_def list_all_iff)

lemma hs_map2:
  "has_shape M r c \<Longrightarrow> has_shape N r c \<Longrightarrow> has_shape (map2 (map2 f) M N) r c"
  by (auto simp: has_shape_def list_all_iff dest!: set_zip_leftD set_zip_rightD
      elim!: in_set_zipE)

lemma hs_multiply: "has_shape M r c \<Longrightarrow> has_shape N r c \<Longrightarrow> has_shape (multiply M N) r c"
  unfolding multiply_def by (rule hs_map2)

lemma hs_add: "has_shape M r c \<Longrightarrow> has_shape N r c \<Longrightarrow> has_shape (mat_add M N) r c"
  unfolding mat_add_def by (rule hs_map2)

lemma hs_sub: "has_shape M r c \<Longrightarrow> has_shape N r c \<Longrightarrow> has_shape (mat_sub M N) r c"
  unfolding mat_sub_def by (rule hs_map2)

lemma hs_scal: "has_shape M r c \<Longrightarrow> has_shape (scal x M) r c"
  by (simp add: scal_def has_shape_def list_all_iff)

lemma hs_vstack:
  "has_shape M r c \<Longrightarrow> has_shape N r' c \<Longrightarrow> has_shape (vstack M N) (r + r') c"
  by (simp add: vstack_def has_shape_def)

lemma hs_take: "has_shape W (m + n) c \<Longrightarrow> has_shape (take m W) m c"
  by (auto simp: has_shape_def list_all_iff dest: in_set_takeD)

lemma hs_drop: "has_shape W (m + n) c \<Longrightarrow> has_shape (drop m W) n c"
  by (auto simp: has_shape_def list_all_iff dest: in_set_dropD)

lemma hs_gradient:
  assumes "obj_ok m n kk s"
  shows "has_shape (gradient s) (m + n) kk"
proof -
  from assms have pos: "0 < m" "0 < n" "0 < kk"
    and a: "has_shape (A s) m n" and mk: "has_shape (mask_tr s) m n"
    and h1: "has_shape (H1 s) m kk" and h2: "has_shape (H2 s) kk n"
    by (simp_all add: obj_ok_def)
  have h2t: "has_shape (mat_T (H2 s)) n kk" using hs_T [OF h2 pos(3)] .
  have h1t: "has_shape (mat_T (H1 s)) kk m" using hs_T [OF h1 pos(1)] .
  have u: "has_shape (mat_add (dot (multiply (mask_tr s) (mat_sub (dot (H1 s) (H2 s)) (A s)))
                         (mat_T (H2 s))) (scal (mu s) (H1 s))) m kk"
    by (intro hs_add hs_dot [OF _ h2t pos(2)] hs_multiply mk hs_sub hs_dot [OF h1 h2 pos(3)] a
        hs_scal h1)
  have v: "has_shape (mat_add (dot (multiply (mat_T (mask_tr s))
                            (mat_sub (dot (mat_T (H2 s)) (mat_T (H1 s))) (mat_T (A s))))
                         (H1 s)) (scal (mu s) (mat_T (H2 s)))) n kk"
    by (intro hs_add hs_dot [OF _ h1 pos(1)] hs_multiply hs_T [OF mk pos(1)] hs_sub
        hs_dot [OF h2t h1t pos(3)] hs_T [OF a pos(1)] hs_scal h2t)
  show ?thesis
    unfolding gradient_def Let_def by (rule hs_vstack [OF u v])
qed

lemma hs_step2:
  "has_shape W r c \<Longrightarrow> has_shape g r c \<Longrightarrow> has_shape (step2 tau0 t10 W a g) r c"
  unfolding step2_def Let_def by (intro hs_scal hs_sub)

lemma hs_step2_retry:
  "has_shape W r c \<Longrightarrow> has_shape g r c \<Longrightarrow> has_shape (step2_retry tau0 t10 W a g) r c"
  unfolding step2_retry_def Let_def by (intro hs_scal hs_sub)

lemma obj_ok_update:
  assumes "obj_ok m n kk s" "has_shape W (m + n) kk"
  shows "obj_ok m n kk (update_factors s W)"
    and "H1 (update_factors s W) = take m W"
    and "H2 (update_factors s W) = mat_T (drop m W)"
proof -
  from assms(1) have pos: "0 < m" "0 < n" "0 < kk" and a: "has_shape (A s) m n"
    by (simp_all add: obj_ok_def)
  have m: "fst (shape (A s)) = m" using hs_shape [OF a pos(1)] by simp
  show "H1 (update_factors s W) = take m W" "H2 (update_factors s W) = mat_T (drop m W)"
    by (simp_all add: update_factors_def Let_def m)
  show "obj_ok m n kk (update_factors s W)"
    using assms(1) hs_take [OF assms(2)] hs_T [OF hs_drop [OF assms(2)] pos(2)]
    by (simp add: obj_ok_def update_factors_def Let_def m)
qed

lemma prologue_shapes:
  assumes "obj_ok m n kk self0" "prologue self0 L0 = Inr v"
  shows "shapes_ok m n kk v"
proof -
  from assms(1) have "has_shape (vstack (H1 self0) (mat_T (H2 self0))) (m + n) kk"
    by (intro hs_vstack hs_T) (simp_all add: obj_ok_def)
  with assms prologue_Inr(1,6) [OF assms(2)] show ?thesis
    by (simp add: shapes_ok_def)
qed

lemma propose_shapes:
  assumes "shapes_ok m n kk v"
  shows "cand_ok m n kk (propose v)"
proof -
  from assms have ok: "obj_ok m n kk (self v)" and w: "has_shape (Wk v) (m + n) kk"
    by (simp_all add: shapes_ok_def)
  have g: "has_shape (gradient (self v)) (m + n) kk" by (rule hs_gradient [OF ok])
  have c: "has_shape (Wk1 (propose v)) (m + n) kk"
    by (simp add: hs_step2 [OF w g])
  from obj_ok_update [OF ok c] w g c show ?thesis
    by (simp add: cand_ok_def shapes_ok_def)
qed

lemma retry_shapes:
  assumes "cand_ok m n kk s" "retry lam rho1 threshold s = Inr s'"
  shows "cand_ok m n kk s'"
proof -
  note r = retry_Inr [OF assms(2)]
  from assms(1) have ok: "obj_ok m n kk (self s)" and w: "has_shape (Wk s) (m + n) kk"
    and g: "has_shape (grad_f_Wk s) (m + n) kk"
    by (simp_all add: cand_ok_def shapes_ok_def)
  have c: "has_shape (Wk1 s') (m + n) kk"
    by (simp add: r(14) hs_step2_retry [OF w g])
  from obj_ok_update [OF ok c] w g c r show ?thesis
    by (simp add: cand_ok_def shapes_ok_def)
qed

lemma retry_Inl_shapes:
  assumes "cand_ok m n kk s" "retry lam rho1 threshold s = Inl (e, s')"
  shows "cand_ok m n kk s'"
  using assms(1) retry_Inl(1,2,6,8) [OF assms(2)]
  by (simp add: cand_ok_def shapes_ok_def)

lemma backtrack_shapes:
  assumes "cand_ok m n kk s" "backtrack lam rho1 threshold s = Some r"
  shows "(\<forall>s'. r = Inr s' \<longrightarrow> cand_ok m n kk s') \<and> (\<forall>e s'. r = Inl (e, s') \<longrightarrow> cand_ok m n kk s')"
proof -
  note rule = backtrack_rule [OF assms(2), of "cand_ok m n kk", OF assms(1) retry_shapes]
  have "\<forall>e s'. r = Inl (e, s') \<longrightarrow> cand_ok m n kk s'"
  proof (intro allI impI)
    fix e s' assume "r = Inl (e, s')"
    with rule have "\<exists>u. cand_ok m n kk u \<and> accept_fails u \<and>
        retry lam rho1 threshold u = Inl (e, s')" by simp
    then show "cand_ok m n kk s'" using retry_Inl_shapes by blast
  qed
  moreover have "\<forall>s'. r = Inr s' \<longrightarrow> cand_ok m n kk s'"
  proof (intro allI impI)
    fix s' assume "r = Inr s'"
    with rule show "cand_ok m n kk s'" by simp
  qed
  ultimately show ?thesis by simp
qed

lemma commit_shapes:
  assumes "cand_ok m n kk s"
  shows "commit lam rho2 s = Inr (v', brk) \<Longrightarrow> shapes_ok m n kk v'"
    and "commit lam rho2 s = Inl (e, s') \<Longrightarrow> cand_ok m n kk s'"
  using assms
  by (auto simp: commit_def Let_def locals.truncate_def cand_ok_def shapes_ok_def
      split: sum.splits if_splits prod.splits)

lemma iteration_shapes:
  assumes "shapes_ok m n kk v" "iteration lam rho1 rho2 threshold v = Some r"
  shows "(\<forall>v' brk. r = Inr (v', brk) \<longrightarrow> shapes_ok m n kk v') \<and>
         (\<forall>e s. r = Inl (e, s) \<longrightarrow> cand_ok m n kk s)"
proof -
  note p = propose_shapes [OF assms(1)]
  from iteration_cases [OF assms(2)]
  consider (bt) x where "r = Inl x" "backtrack lam rho1 threshold (propose v) = Some (Inl x)"
    | (cm) s where "backtrack lam rho1 threshold (propose v) = Some (Inr s)"
        "commit lam rho2 s = r"
    by auto
  then show ?thesis
  proof cases
    case bt
    with backtrack_shapes [OF p bt(2)] show ?thesis by auto
  next
    case cm
    from backtrack_shapes [OF p cm(1)] have "cand_ok m n kk s" by simp
    from commit_shapes [OF this] cm(2) show ?thesis by auto
  qed
qed

lemma shapes_ok_i [simp]: "shapes_ok m n kk (v\<lparr>i := x\<rparr>) = shapes_ok m n kk v"
  by (simp add: shapes_ok_def)

lemma outer_loop_shapes:
  assumes "shapes_ok m n kk v" "outer_loop lam rho1 rho2 threshold ix cnt v = Some r"
  shows "(\<forall>v'. r = Inr v' \<longrightarrow> shapes_ok m n kk v') \<and>
         (\<forall>e s. r = Inl (e, s) \<longrightarrow> cand_ok m n kk s)"
  using assms
proof (induction cnt arbitrary: ix v)
  case 0
  then show ?case by auto
next
  case (Suc cnt)
  from Suc.prems(2) obtain r1 where
    r1: "iteration lam rho1 rho2 threshold (v\<lparr>i := Some ix\<rparr>) = Some r1"
    by (auto split: option.splits)
  have sv: "shapes_ok m n kk (v\<lparr>i := Some ix\<rparr>)" using Suc.prems(1) by simp
  note it = iteration_shapes [OF sv r1]
  show ?case
  proof (cases r1)
    case (Inl x)
    with r1 Suc.prems(2) it show ?thesis by (cases x) auto
  next
    case (Inr y)
    obtain v1 brk where y: "y = (v1, brk)" by (cases y)
    with Inr it have v1: "shapes_ok m n kk v1" by simp
    show ?thesis
    proof (cases brk)
      case True
      with r1 Inr y Suc.prems(2) v1 show ?thesis by auto
    next
      case False
      with r1 Inr y Suc.prems(2)
      have "outer_loop lam rho1 rho2 threshold (Suc ix) cnt v1 = Some r" by simp
      from Suc.IH [OF v1 this] show ?thesis .
    qed
  qed
qed

lemma prologue_b: "prologue obj_b (Fin (1 / 4)) = Inr frame_b"
  by (simp add: prologue_def frame_b_def obj_b_def calculate_loss_def calculate_rmse_def
      at_nonzero_def mean_squared_error_def py_truediv_def Let_def mat_defs num_defs)

lemma propose_b: "propose (frame_b\<lparr>i := Some 0\<rparr>) = cand_b"
  by (simp add: propose_def frame_b_def cand_b_def obj_b_def gradient_def step2_def
      update_factors_def calculate_loss_def locals.extend_def iter_locals.fields_def
      Let_def mat_defs num_defs nthr3_eq root_evals)

lemma bound_b: "accept_bound cand_b = Fin (- (7 / 4))"
  by (simp add: accept_bound_def cand_b_def D_h_def func_h_def Let_def mat_defs num_defs
      eval_nat_numeral)

lemma fails_b: "accept_fails cand_b"
  by (simp add: accept_fails_def bound_b) (simp add: cand_b_def)

lemma retry_b_overflow:
  "retry (Fin 17) (Fin 4) 1 cand_b = Inl (OverflowError, cand_b\<lparr>flag := 1, j := 1\<rparr>)"
  using float_max_ge
  by (simp add: retry_def py_pow_def Let_def) (simp add: cand_b_def)

lemma iteration_b_overflow:
  "iteration (Fin 17) (Fin 4) (Fin (1 / 2)) 1 (frame_b\<lparr>i := Some 0\<rparr>) =
     Some (Inl (OverflowError, cand_b\<lparr>flag := 1, j := 1\<rparr>))"
  by (simp add: iteration_def propose_b) (subst backtrack.simps, simp add: fails_b retry_b_overflow)

lemma budget_b: "MatrixCompletion.iterations obj_b = 1"
  by (simp add: obj_b_def)

lemma run_b_overflow:
  "MC_adaptive_2 obj_b (Fin 17) (Fin (1 / 4)) (Fin 4) (Fin (1 / 2)) 1 =
     Some (Inl OverflowError, obj_b\<lparr>H1 := [[Fin (- 1)]], H2 := [[Fin (- 1), Fin 0]]\<rparr>)"
  by (simp add: MC_adaptive_2_def prologue_b budget_b iteration_b_overflow)
    (simp add: cand_b_def)

lemma obj_ok_b: "obj_ok 1 2 1 obj_b"
  by (simp add: obj_ok_def obj_b_def has_shape_def)

text \<open>
  C6, as the spec states it: the stacked state \<^verbatim>\<open>W\<close> is (m + k) x k, and \<^verbatim>\<open>H2\<close>
  receives the remaining k rows of a candidate, transposed. The source stacks \<^verbatim>\<open>H1\<close>
  (m x k) on the transpose of \<^verbatim>\<open>H2\<close> (n x k). For the 1 x 2 problem of rank 1 the state
  has 1 + 2 = 3 rows, not 1 + 1 = 2, and the part given to \<^verbatim>\<open>H2\<close> has 2 rows.
\<close>

theorem stacked_shape_counterexample:
  "obj_ok 1 2 1 obj_b \<and> prologue obj_b (Fin (1 / 4)) = Inr frame_b \<and>
   Wk frame_b = [[Fin 1], [Fin 1], [Fin 0]] \<and> has_shape (Wk frame_b) (1 + 2) 1 \<and>
   \<not> has_shape (Wk frame_b) (1 + 1) 1 \<and>
   H2 (update_factors obj_b (Wk frame_b)) = mat_T [[Fin 1], [Fin 0]] \<and>
   length (drop 1 (Wk frame_b)) = 2"
  using obj_ok_b prologue_b
  by (simp add: frame_b_def has_shape_def update_factors_def obj_b_def shape_def Let_def)

text \<open>
  C6, amended: for well-shaped data with positive m, n and k, throughout every run
  \<^verbatim>\<open>H1\<close> is m x k, \<^verbatim>\<open>H2\<close> is k x n and the stacked state \<^verbatim>\<open>W\<close> is (m + n) x k; when
  a candidate is split back, \<^verbatim>\<open>H1\<close> receives its first m rows and \<^verbatim>\<open>H2\<close> the remaining
  n rows, transposed. The shapes hold after the setup, after the proposal of step 2, after
  every retry of the inner loop, after every outer iteration (also in the variables of a
  raised error), and for the object and the completed matrix at the end of the run.
\<close>

theorem shapes_invariant:
  assumes "obj_ok m n kk self0"
  shows "(\<forall>v. prologue self0 L0 = Inr v \<longrightarrow> shapes_ok m n kk v) \<and>
         (\<forall>v::locals. shapes_ok m n kk v \<longrightarrow> cand_ok m n kk (propose v)) \<and>
         (\<forall>s s'. cand_ok m n kk s \<longrightarrow> retry lam rho1 threshold s = Inr s' \<longrightarrow>
                  cand_ok m n kk s') \<and>
         (\<forall>(v::locals) ix cnt r. shapes_ok m n kk v \<longrightarrow>
              outer_loop lam rho1 rho2 threshold ix cnt v = Some r \<longrightarrow>
              (\<forall>v'. r = Inr v' \<longrightarrow> shapes_ok m n kk v') \<and>
              (\<forall>e s. r = Inl (e, s) \<longrightarrow> cand_ok m n kk s)) \<and>
         (\<forall>out obj. MC_adaptive_2 self0 lam L0 rho1 rho2 threshold = Some (out, obj) \<longrightarrow>
              has_shape (H1 obj) m kk \<and> has_shape (H2 obj) kk n \<and>
              (\<forall>res. out = Inr res \<longrightarrow> has_shape (completed_matrix res) m n))"
proof (intro conjI allI impI)
  fix v assume "prologue self0 L0 = Inr v"
  then show "shapes_ok m n kk v" by (rule prologue_shapes [OF assms])
next
  fix v :: locals assume "shapes_ok m n kk v"
  then show "cand_ok m n kk (propose v)" by (rule propose_shapes)
next
  fix s s' assume "cand_ok m n kk s" "retry lam rho1 threshold s = Inr s'"
  then show "cand_ok m n kk s'" by (rule retry_shapes)
next
  fix v :: locals and ix cnt r v'
  assume "shapes_ok m n kk v" "outer_loop lam rho1 rho2 threshold ix cnt v = Some r"
    "r = Inr v'"
  with outer_loop_shapes show "shapes_ok m n kk v'" by blast
next
  fix v :: locals and ix cnt r e s
  assume "shapes_ok m n kk v" "outer_loop lam rho1 rho2 threshold ix cnt v = Some r"
    "r = Inl (e, s)"
  with outer_loop_shapes show "cand_ok m n kk s" by blast
next
  fix out obj
  assume run: "MC_adaptive_2 self0 lam L0 rho1 rho2 threshold = Some (out, obj)"
  have fin: "has_shape (H1 obj) m kk \<and> has_shape (H2 obj) kk n \<and>
         (\<forall>res. out = Inr res \<longrightarrow> has_shape (completed_matrix res) m n)"
  proof (cases "prologue self0 L0")
    case (Inl e)
    with run assms show ?thesis by (auto simp: MC_adaptive_2_def obj_ok_def)
  next
    case (Inr v)
    note sv = prologue_shapes [OF assms Inr]
    from run Inr obtain r where
      r: "outer_loop lam rho1 rho2 threshold 0 (nat (MatrixCompletion.iterations self0)) v
            = Some r"
      by (auto simp: MC_adaptive_2_def split: option.splits)
    note ol = outer_loop_shapes [OF sv r]
    show ?thesis
    proof (cases r)
      case (Inl x)
      obtain e s where x: "x = (e, s)" by (cases x)
      with Inl ol have "cand_ok m n kk s" by simp
      then have "obj_ok m n kk (self s)" by (simp add: cand_ok_def shapes_ok_def)
      then have "has_shape (H1 (self s)) m kk \<and> has_shape (H2 (self s)) kk n"
        by (simp add: obj_ok_def)
      moreover from run Inr r Inl x have "out = Inl e" "obj = self s"
        by (simp_all add: MC_adaptive_2_def)
      ultimately show ?thesis by simp
    next
      case (Inr v')
      with ol have ok: "obj_ok m n kk (self v')" by (simp add: shapes_ok_def)
      then have "has_shape (dot (H1 (self v')) (H2 (self v'))) m n"
        by (intro hs_dot [where q = kk]) (simp_all add: obj_ok_def)
      with run \<open>prologue self0 L0 = Inr v\<close> r Inr ok show ?thesis
        by (auto simp: MC_adaptive_2_def obj_ok_def split: option.splits)
    qed
  qed
  from fin show "has_shape (H1 obj) m kk" by simp
  from fin show "has_shape (H2 obj) kk n" by simp
  fix res assume "out = Inr res"
  with fin show "has_shape (completed_matrix res) m n" by simp
qed

text \<open>
  The amended C6 on the 1 x 2 problem \<open>obj_b\<close>, whose run with threshold 1 ends in the
  overflow error.
\<close>

theorem shapes_invariant_witness:
  "obj_ok 1 2 1 obj_b \<and>
   prologue obj_b (Fin (1 / 4)) = Inr frame_b \<and> shapes_ok 1 2 1 frame_b \<and>
   has_shape (Wk frame_b) (1 + 2) 1 \<and>
   cand_ok 1 2 1 (propose (frame_b\<lparr>i := Some 0\<rparr>)) \<and>
   has_shape (Wk1 cand_b) (1 + 2) 1 \<and>
   H1 (self cand_b) = take 1 (Wk1 cand_b) \<and> H2 (self cand_b) = mat_T (drop 1 (Wk1 cand_b)) \<and>
   MC_adaptive_2 obj_b (Fin 17) (Fin (1 / 4)) (Fin 4) (Fin (1 / 2)) 1 =
     Some (Inl OverflowError, obj_b\<lparr>H1 := [[Fin (- 1)]], H2 := [[Fin (- 1), Fin 0]]\<rparr>) \<and>
   has_shape (H1 (obj_b\<lparr>H1 := [[Fin (- 1)]], H2 := [[Fin (- 1), Fin 0]]\<rparr>)) 1 1 \<and>
   has_shape (H2 (obj_b\<lparr>H1 := [[Fin (- 1)]], H2 := [[Fin (- 1), Fin 0]]\<rparr>)) 1 2"
proof -
  note t = shapes_invariant [OF obj_ok_b, of "Fin (1 / 4)" "Fin 17" "Fin 4" 1 "Fin (1 / 2)"]
  from t have t1: "\<forall>v. prologue obj_b (Fin (1 / 4)) = Inr v \<longrightarrow> shapes_ok 1 2 1 v"
    by (rule conjunct1)
  from t have t2: "\<forall>v::locals. shapes_ok 1 2 1 v \<longrightarrow> cand_ok 1 2 1 (propose v)"
    by (elim conjE)
  from t have t5: "\<forall>out obj.
      MC_adaptive_2 obj_b (Fin 17) (Fin (1 / 4)) (Fin 4) (Fin (1 / 2)) 1 = Some (out, obj) \<longrightarrow>
        has_shape (H1 obj) 1 1 \<and> has_shape (H2 obj) 1 2 \<and>
        (\<forall>res. out = Inr res \<longrightarrow> has_shape (completed_matrix res) 1 2)"
    by (elim conjE)
  from t1 prologue_b have f: "shapes_ok 1 2 1 frame_b" by (elim allE impE) assumption
  then have f': "shapes_ok 1 2 1 (frame_b\<lparr>i := Some 0\<rparr>)" by simp
  from t2 f' have c: "cand_ok 1 2 1 (propose (frame_b\<lparr>i := Some 0\<rparr>))"
    by (elim allE impE) assumption
  from t5 run_b_overflow
  have r: "has_shape (H1 (obj_b\<lparr>H1 := [[Fin (- 1)]], H2 := [[Fin (- 1), Fin 0]]\<rparr>)) 1 1 \<and>
           has_shape (H2 (obj_b\<lparr>H1 := [[Fin (- 1)]], H2 := [[Fin (- 1), Fin 0]]\<rparr>)) 1 2"
    by (elim allE impE) (assumption, simp)
  from c have "has_shape (Wk1 cand_b) (1 + 2) 1 \<and> H1 (self cand_b) = take 1 (Wk1 cand_b) \<and>
      H2 (self cand_b) = mat_T (drop 1 (Wk1 cand_b))"
    by (simp add: propose_b cand_ok_def)
  moreover from f have "has_shape (Wk frame_b) (1 + 2) 1" by (simp add: shapes_ok_def)
  ultimately show ?thesis
    using obj_ok_b prologue_b f c r run_b_overflow by simp
qed

section \<open>Termination of the backtracking loop (C7)\<close>

text \<open>
  C7: in every run, when the acceptance test never succeeds within \<^verbatim>\<open>threshold\<close>
  attempts, the backtracking loop should end by raising the overflow error rather than
  loop forever. The loop tests \<^verbatim>\<open>j == threshold\<close> after incrementing \<^verbatim>\<open>j\<close> from 0, so a
  threshold of 0 is never met, although the docstring calls \<^verbatim>\<open>threshold\<close> the maximum
  number of iterations of the inner loop. With \<^verbatim>\<open>threshold = 0\<close>, \<^verbatim>\<open>rho1 = 1\<close> and
  \<^verbatim>\<open>lam = 0\<close> the first candidate of \<open>obj_a\<close> is rejected, \<^verbatim>\<open>rho1 ** j\<close> never leaves the
  double range, every retry recomputes the same rejected candidate, and the run returns
  nothing: neither a result nor an exception.
\<close>

theorem threshold_zero_never_returns:
  "accept_fails cand_a \<and>
   MC_adaptive_2 obj_a (Fin 0) (Fin (1 / 4)) (Fin 1) (Fin (1 / 2)) 0 = None"
  using fails_a run_a_diverges by simp

text \<open>
  For a threshold of at least 1 the code does what C7 says: the run ends; the
  backtracking loop of every outer iteration ends, either with a candidate that passes
  the acceptance test after fewer than \<^verbatim>\<open>threshold\<close> retries, or with an exception raised
  on a rejected candidate after at most \<^verbatim>\<open>threshold\<close> attempts, OverflowError (or
  ZeroDivisionError when the grown \<^verbatim>\<open>L\<close> is zero); and the exception of an iteration is
  the outcome of the loop and of the run, which then returns no result record.
\<close>

theorem backtracking_bounded:
  assumes "0 < threshold"
  shows "(\<exists>out obj. MC_adaptive_2 self0 lam L0 rho1 rho2 threshold = Some (out, obj)) \<and>
         (\<exists>r. backtrack lam rho1 threshold (propose v) = Some r \<and>
              (\<forall>s'. r = Inr s' \<longrightarrow> \<not> accept_fails s' \<and> int (j s') < threshold) \<and>
              (\<forall>e s'. r = Inl (e, s') \<longrightarrow> int (j s') \<le> threshold \<and>
                 (e = OverflowError \<and> accept_fails s' \<or>
                  e = ZeroDivisionError \<and> L s' = Fin 0))) \<and>
         (\<forall>x. iteration lam rho1 rho2 threshold (v0\<lparr>i := Some ix\<rparr>) = Some (Inl x) \<longrightarrow>
              outer_loop lam rho1 rho2 threshold ix (Suc n) v0 = Some (Inl x)) \<and>
         (\<forall>v1 e s. prologue self0 L0 = Inr v1 \<longrightarrow>
              outer_loop lam rho1 rho2 threshold 0 (nat (MatrixCompletion.iterations self0)) v1
                = Some (Inl (e, s)) \<longrightarrow>
              MC_adaptive_2 self0 lam L0 rho1 rho2 threshold = Some (Inl e, self s))"
proof (intro conjI)
  show "\<exists>out obj. MC_adaptive_2 self0 lam L0 rho1 rho2 threshold = Some (out, obj)"
    by (rule run_terminates [OF assms])
  have "int (j (propose v)) < threshold" using assms by simp
  from backtrack_outcome [OF this]
  show "\<exists>r. backtrack lam rho1 threshold (propose v) = Some r \<and>
              (\<forall>s'. r = Inr s' \<longrightarrow> \<not> accept_fails s' \<and> int (j s') < threshold) \<and>
              (\<forall>e s'. r = Inl (e, s') \<longrightarrow> int (j s') \<le> threshold \<and>
                 (e = OverflowError \<and> accept_fails s' \<or>
                  e = ZeroDivisionError \<and> L s' = Fin 0))" .
  show "\<forall>x. iteration lam rho1 rho2 threshold (v0\<lparr>i := Some ix\<rparr>) = Some (Inl x) \<longrightarrow>
              outer_loop lam rho1 rho2 threshold ix (Suc n) v0 = Some (Inl x)"
    by simp
  show "\<forall>v1 e s. prologue self0 L0 = Inr v1 \<longrightarrow>
              outer_loop lam rho1 rho2 threshold 0 (nat (MatrixCompletion.iterations self0)) v1
                = Some (Inl (e, s)) \<longrightarrow>
              MC_adaptive_2 self0 lam L0 rho1 rho2 threshold = Some (Inl e, self s)"
    by (simp add: MC_adaptive_2_def)
qed

text \<open>
  On \<open>obj_a\<close> with \<^verbatim>\<open>threshold = 1\<close>: the first candidate is rejected, the loop raises
  OverflowError, and the run returns that error.
\<close>

theorem backtracking_bounded_witness:
  "(0::int) < 1 \<and>
   MC_adaptive_2 obj_a (Fin 17) (Fin (1 / 4)) (Fin 4) (Fin (1 / 2)) 1 =
     Some (Inl OverflowError, obj_a\<lparr>H1 := [[Fin (- 1)]], H2 := [[Fin (- 1)]]\<rparr>) \<and>
   backtrack (Fin 17) (Fin 4) 1 (propose (frame_a\<lparr>i := Some 0\<rparr>)) =
     Some (Inl (OverflowError, cand_a\<lparr>flag := 1, j := 1\<rparr>)) \<and>
   int (j (cand_a\<lparr>flag := 1, j := 1\<rparr>)) \<le> 1 \<and>
   accept_fails (cand_a\<lparr>flag := 1, j := 1\<rparr>) \<and>
   outer_loop (Fin 17) (Fin 4) (Fin (1 / 2)) 1 0 (Suc 0) frame_a =
     Some (Inl (OverflowError, cand_a\<lparr>flag := 1, j := 1\<rparr>))"
  using backtracking_bounded [where threshold = 1 and ?self0.0 = obj_a and lam = "Fin 17"
      and ?L0.0 = "Fin (1 / 4)" and ?rho1.0 = "Fin 4" and ?rho2.0 = "Fin (1 / 2)"
      and v = "frame_a\<lparr>i := Some 0\<rparr>" and ?v0.0 = frame_a and ix = 0 and n = 0]
    run_a_overflow backtrack_a_overflow iteration_a_overflow propose_a
  by simp

section \<open>The NaN exit (C8)\<close>

text \<open>
  C8: a run that commits a NaN loss should stop right after that iteration and return
  normally, with a result whose loss history holds the NaN value; the comment at line 256
  says so (break if the loss becomes NaN). The loss is appended at line 250, but line 251
  evaluates the RMSE before the test of line 257, and the library refuses NaN
  predictions. With a NaN data entry the first iteration of \<open>obj_nan\<close> commits a NaN
  loss (the loss list at the raise is NaN, NaN) and the run ends in ValueError, with no
  result record, the factors left as NaN.
\<close>

theorem nan_commit_raises:
  "MC_adaptive_2 obj_nan (Fin 1) (Fin 1) (Fin 2) (Fin (1 / 2)) 20 =
     Some (Inl ValueError, obj_nan\<lparr>H1 := [[NaN]], H2 := [[NaN]]\<rparr>) \<and>
   iteration (Fin 1) (Fin 2) (Fin (1 / 2)) 20 (frame_nan\<lparr>i := Some 0\<rparr>) =
     Some (Inl (ValueError, raise_nan)) \<and>
   loss raise_nan = [NaN, NaN] \<and> isnan (fk1 raise_nan)"
  using run_nan iteration_nan by (simp add: raise_nan_def)

section \<open>The acceptance test and the loss history (C9)\<close>

text \<open>
  C9, as the spec states it: every accepted iteration passes the sufficient-decrease test,
  and the loss history is therefore non-increasing unless a NaN ends the run. The test
  bounds the candidate loss by the previous loss plus two terms that can be positive, so
  it does not keep the loss from growing: the run of \<open>obj_a\<close> accepts a candidate of loss
  8 after the baseline 1/2, with no NaN anywhere.
\<close>

theorem loss_history_counterexample:
  "MC_adaptive_2 obj_a (Fin 17) (Fin (1 / 4)) (Fin 4) (Fin (1 / 2)) 20 =
     Some (Inr result_a, obj_a\<lparr>H1 := [[Fin (- 2)]], H2 := [[Fin (- 2)]]\<rparr>) \<and>
   loss_history result_a = [Fin (1 / 2), Fin 8] \<and>
   fgt (loss_history result_a ! 1) (loss_history result_a ! 0) \<and>
   \<not> isnan (loss_history result_a ! 0) \<and> \<not> isnan (loss_history result_a ! 1)"
  using run_a by (simp add: result_a_def)

text \<open>
  For matrices of one column the sum of all entries of \<^verbatim>\<open>G.T.dot(D)\<close> is the inner
  product; for two columns it is not.
\<close>

lemma fadd_zero_right: "fadd x (Fin 0) = x"
  by (cases x) simp_all

lemma column_concat: "has_shape G r 1 \<Longrightarrow> concat G = map (\<lambda>row. row ! 0) G"
proof (induction G arbitrary: r)
  case Nil
  then show ?case by simp
next
  case (Cons g G)
  from Cons.prems have g: "length g = 1" and G: "has_shape G (length G) 1"
    by (simp_all add: has_shape_def)
  from g obtain x where "g = [x]" by (cases g) auto
  with Cons.IH [OF G] show ?case by simp
qed

lemma entry_sum_column:
  assumes "has_shape G r 1" "has_shape D r 1" "0 < r"
  shows "mat_sum (dot (mat_T G) D) = inner_fro G D"
proof -
  have sG: "snd (shape G) = 1" using hs_shape [OF assms(1,3)] by simp
  have sD: "snd (shape D) = 1" using hs_shape [OF assms(2,3)] by simp
  have tG: "mat_T G = [map (\<lambda>row. row ! 0) G]" by (simp add: mat_T_def sG)
  have tD: "mat_T D = [map (\<lambda>row. row ! 0) D]" by (simp add: mat_T_def sD)
  have "mat_sum (dot (mat_T G) D) =
      fsum (map2 fmul (map (\<lambda>row. row ! 0) G) (map (\<lambda>row. row ! 0) D))"
    by (simp add: dot_def tG tD mat_sum_def) (simp add: fsum_def fadd_zero_right)
  also have "\<dots> = inner_fro G D"
    by (simp only: inner_fro_def column_concat [OF assms(1)] column_concat [OF assms(2)])
  finally show ?thesis .
qed

lemma D_h_column:
  assumes "has_shape W1 r 1" "has_shape W2 r 1" "0 < r"
  shows "D_h W1 W2 tau0 = D_h_spec W1 W2 tau0"
  using entry_sum_column [OF hs_scal [OF assms(2)] hs_sub [OF assms(1,2)] assms(3)]
  by (simp add: D_h_def D_h_spec_def Let_def)

lemma accept_bound_column:
  assumes "cand_ok m n 1 s"
  shows "accept_bound s =
     spec_bound (last (loss s)) (grad_f_Wk s) (Wk1 s) (Wk s) (L s) (tau s)"
proof -
  from assms have g: "has_shape (grad_f_Wk s) (m + n) 1" and c: "has_shape (Wk1 s) (m + n) 1"
    and w: "has_shape (Wk s) (m + n) 1" and pos: "0 < m + n"
    by (simp_all add: cand_ok_def shapes_ok_def obj_ok_def)
  show ?thesis
    by (simp add: accept_bound_def spec_bound_def D_h_column [OF c w pos]
        entry_sum_column [OF g hs_sub [OF c w] pos])
qed

lemma entry_sum_differs:
  "mat_sum (dot (mat_T [[Fin 1, Fin 0], [Fin 0, Fin 0]]) [[Fin 0, Fin 1], [Fin 0, Fin 0]]) = Fin 1 \<and>
   inner_fro [[Fin 1, Fin 0], [Fin 0, Fin 0]] [[Fin 0, Fin 1], [Fin 0, Fin 0]] = Fin 0"
  by (simp add: inner_fro_def mat_defs)

text \<open>
  C9, amended: in every run of rank k = 1 on well-shaped data, each accepted outer
  iteration commits a candidate whose loss is not greater than the bound of the acceptance
  test, loss[last] + <grad_f(W), W_candidate - W> + L * D_h(W_candidate, W, tau), with the
  inner product of the specification and \<^verbatim>\<open>L\<close> as the inner loop left it: the loss
  is at most the bound unless one of the two is NaN. The committed loss, divided by the
  number of entries, is what the iteration appends to the history, and the candidate
  becomes the state. Nothing is stated about the order of the recorded losses, nor about
  runs of rank 2 or more.
\<close>

theorem accepted_within_spec_bound:
  assumes "shapes_ok m n 1 v"
    and "iteration lam rho1 rho2 threshold v = Some (Inr (v', brk))"
  shows "\<exists>s. backtrack lam rho1 threshold (propose v) = Some (Inr s) \<and>
           \<not> fgt (fk1 s)
               (spec_bound (last (loss v)) (gradient (self v)) (Wk1 s) (Wk v) (L s) (tau v)) \<and>
           (isnan (fk1 s) \<or>
            isnan (spec_bound (last (loss v)) (gradient (self v)) (Wk1 s) (Wk v) (L s) (tau v)) \<or>
            fle (fk1 s)
              (spec_bound (last (loss v)) (gradient (self v)) (Wk1 s) (Wk v) (L s) (tau v))) \<and>
           loss v' = loss v @ [fdiv (fk1 s) (Fin (real (m * n)))] \<and>
           Wk v' = Wk1 s \<and> brk = isnan (fk1 s)"
proof -
  from iteration_Inr [OF assms(2)] obtain s where
    s: "backtrack lam rho1 threshold (propose v) = Some (Inr s)" "kept v s"
      "\<not> accept_fails s" "commit lam rho2 s = Inr (v', brk)"
    by blast
  note c = commit_Inr [OF s(4)]
  from backtrack_shapes [OF propose_shapes [OF assms(1)] s(1)]
  have ok: "cand_ok m n 1 s" by simp
  from assms(1) have "has_shape (A (self v)) m n" "0 < m"
    by (simp_all add: shapes_ok_def obj_ok_def)
  then have sh: "shape (A (self v)) = (m, n)" by (rule hs_shape)
  have b: "accept_bound s =
      spec_bound (last (loss v)) (gradient (self v)) (Wk1 s) (Wk v) (L s) (tau v)"
    using accept_bound_column [OF ok] s(2) by (simp add: kept_def)
  have 1: "\<not> fgt (fk1 s)
      (spec_bound (last (loss v)) (gradient (self v)) (Wk1 s) (Wk v) (L s) (tau v))"
    using s(3) b by (simp add: accept_fails_def)
  then have 2: "isnan (fk1 s) \<or>
      isnan (spec_bound (last (loss v)) (gradient (self v)) (Wk1 s) (Wk v) (L s) (tau v)) \<or>
      fle (fk1 s)
        (spec_bound (last (loss v)) (gradient (self v)) (Wk1 s) (Wk v) (L s) (tau v))"
    by (auto simp: fle_def)
  have 3: "loss v' = loss v @ [fdiv (fk1 s) (Fin (real (m * n)))]"
    using s(2) c(2) sh by (simp add: kept_def)
  show ?thesis
    by (rule exI [of _ s]) (intro conjI s(1) 1 2 3 c(6) c(1))
qed

lemma shapes_frame_a: "shapes_ok 1 1 1 (frame_a\<lparr>i := Some 0\<rparr>)"
  by (simp add: shapes_ok_def obj_ok_def frame_a_def obj_a_def has_shape_def)

lemma gradient_a: "gradient obj_a = [[Fin 1], [Fin 1]]"
  by (simp add: gradient_def obj_a_def mat_defs num_defs)

lemma spec_bound_a2:
  "spec_bound (Fin (1 / 2)) [[Fin 1], [Fin 1]] [[Fin (- 2)], [Fin (- 2)]] [[Fin 1], [Fin 1]]
     (Fin 1) (Fin 0) = Fin (43 / 2)"
  by (simp add: spec_bound_def D_h_spec_def inner_fro_def func_h_def Let_def mat_defs num_defs
      eval_nat_numeral)

text \<open>
  The amended C9 on the accepted iteration of \<open>obj_a\<close>: the committed loss is 8 and the
  bound is 43/2.
\<close>

theorem accepted_within_spec_bound_witness:
  "shapes_ok 1 1 1 (frame_a\<lparr>i := Some 0\<rparr>) \<and>
   iteration (Fin 17) (Fin 4) (Fin (1 / 2)) 20 (frame_a\<lparr>i := Some 0\<rparr>) =
     Some (Inr (frame_a2, False)) \<and>
   backtrack (Fin 17) (Fin 4) 20 (propose (frame_a\<lparr>i := Some 0\<rparr>)) = Some (Inr cand_a2) \<and>
   fk1 cand_a2 = Fin 8 \<and>
   spec_bound (last (loss (frame_a\<lparr>i := Some 0\<rparr>))) (gradient (self (frame_a\<lparr>i := Some 0\<rparr>)))
     (Wk1 cand_a2) (Wk (frame_a\<lparr>i := Some 0\<rparr>)) (L cand_a2) (tau (frame_a\<lparr>i := Some 0\<rparr>)) =
     Fin (43 / 2) \<and>
   fle (fk1 cand_a2)
     (spec_bound (last (loss (frame_a\<lparr>i := Some 0\<rparr>))) (gradient (self (frame_a\<lparr>i := Some 0\<rparr>)))
        (Wk1 cand_a2) (Wk (frame_a\<lparr>i := Some 0\<rparr>)) (L cand_a2) (tau (frame_a\<lparr>i := Some 0\<rparr>))) \<and>
   loss frame_a2 = loss (frame_a\<lparr>i := Some 0\<rparr>) @ [fdiv (fk1 cand_a2) (Fin (real (1 * 1)))] \<and>
   Wk frame_a2 = Wk1 cand_a2"
proof -
  from accepted_within_spec_bound [OF shapes_frame_a iteration_a] obtain s where
    s: "backtrack (Fin 17) (Fin 4) 20 (propose (frame_a\<lparr>i := Some 0\<rparr>)) = Some (Inr s)"
      "\<not> fgt (fk1 s)
          (spec_bound (last (loss (frame_a\<lparr>i := Some 0\<rparr>)))
             (gradient (self (frame_a\<lparr>i := Some 0\<rparr>))) (Wk1 s) (Wk (frame_a\<lparr>i := Some 0\<rparr>))
             (L s) (tau (frame_a\<lparr>i := Some 0\<rparr>)))"
      "loss frame_a2 = loss (frame_a\<lparr>i := Some 0\<rparr>) @ [fdiv (fk1 s) (Fin (real (1 * 1)))]"
      "Wk frame_a2 = Wk1 s"
    by blast
  from s(1) have eq: "s = cand_a2" by (simp add: propose_a backtrack_a)
  have f: "fk1 cand_a2 = Fin 8" by (simp add: cand_a2_def)
  have b: "spec_bound (last (loss (frame_a\<lparr>i := Some 0\<rparr>)))
      (gradient (self (frame_a\<lparr>i := Some 0\<rparr>))) (Wk1 cand_a2) (Wk (frame_a\<lparr>i := Some 0\<rparr>))
      (L cand_a2) (tau (frame_a\<lparr>i := Some 0\<rparr>)) = Fin (43 / 2)"
    using spec_bound_a2 gradient_a by (simp add: frame_a_def cand_a2_def)
  have le: "fle (fk1 cand_a2)
      (spec_bound (last (loss (frame_a\<lparr>i := Some 0\<rparr>)))
        (gradient (self (frame_a\<lparr>i := Some 0\<rparr>))) (Wk1 cand_a2) (Wk (frame_a\<lparr>i := Some 0\<rparr>))
        (L cand_a2) (tau (frame_a\<lparr>i := Some 0\<rparr>)))"
    by (simp only: b f) (simp add: fle_def)
  from s(1,3,4) eq shapes_frame_a iteration_a f b le show ?thesis
    by (intro conjI) simp_all
qed

section \<open>The object after an overflow abort (C10)\<close>

text \<open>
  C10: when the run aborts with the backtracking overflow error, the object's \<^verbatim>\<open>H1\<close> and
  \<^verbatim>\<open>H2\<close> hold the two parts of the last rejected candidate: the loop raised in variables
  \<open>s\<close> whose candidate \<^verbatim>\<open>Wk1\<close> fails the acceptance test, and the object returned with
  the error has the first \<open>m\<close> rows of that candidate as \<^verbatim>\<open>H1\<close> and the transposed rest
  as \<^verbatim>\<open>H2\<close>; nothing writes the accepted factors back.
\<close>

theorem overflow_leaves_candidate:
  assumes "MC_adaptive_2 self0 lam L0 rho1 rho2 threshold = Some (Inl OverflowError, obj)"
  shows "\<exists>v s. prologue self0 L0 = Inr v \<and>
           outer_loop lam rho1 rho2 threshold 0 (nat (MatrixCompletion.iterations self0)) v
             = Some (Inl (OverflowError, s)) \<and>
           obj = self s \<and> accept_fails s \<and>
           H1 obj = take (fst (shape (A self0))) (Wk1 s) \<and>
           H2 obj = mat_T (drop (fst (shape (A self0))) (Wk1 s))"
proof -
  from assms obtain v where p: "prologue self0 L0 = Inr v"
    by (auto simp: MC_adaptive_2_def py_truediv_def prologue_def Let_def
        split: sum.splits prod.splits if_splits dest: calculate_rmse_error)
  with assms obtain s where
    ol: "outer_loop lam rho1 rho2 threshold 0 (nat (MatrixCompletion.iterations self0)) v
           = Some (Inl (OverflowError, s))"
    and obj: "obj = self s"
    by (auto simp: MC_adaptive_2_def split: sum.splits option.splits prod.splits)
  from outer_loop_Inl [OF ol] prologue_Inr(1) [OF p] p ol obj show ?thesis by auto
qed

text \<open>
  On \<open>obj_a\<close> with \<^verbatim>\<open>threshold = 1\<close>: the factors were 1 and 1 before the run, and are
  those of the rejected candidate, -1 and -1, after the abort.
\<close>

theorem overflow_leaves_candidate_witness:
  "MC_adaptive_2 obj_a (Fin 17) (Fin (1 / 4)) (Fin 4) (Fin (1 / 2)) 1 =
     Some (Inl OverflowError, obj_a\<lparr>H1 := [[Fin (- 1)]], H2 := [[Fin (- 1)]]\<rparr>) \<and>
   H1 obj_a = [[Fin 1]] \<and> H2 obj_a = [[Fin 1]] \<and>
   (\<exists>v s. prologue obj_a (Fin (1 / 4)) = Inr v \<and>
           outer_loop (Fin 17) (Fin 4) (Fin (1 / 2)) 1 0 (nat (MatrixCompletion.iterations obj_a)) v
             = Some (Inl (OverflowError, s)) \<and>
           obj_a\<lparr>H1 := [[Fin (- 1)]], H2 := [[Fin (- 1)]]\<rparr> = self s \<and> accept_fails s \<and>
           H1 (obj_a\<lparr>H1 := [[Fin (- 1)]], H2 := [[Fin (- 1)]]\<rparr>) =
             take (fst (shape (A obj_a))) (Wk1 s) \<and>
           H2 (obj_a\<lparr>H1 := [[Fin (- 1)]], H2 := [[Fin (- 1)]]\<rparr>) =
             mat_T (drop (fst (shape (A obj_a))) (Wk1 s)))"
  using overflow_leaves_candidate [OF run_a_overflow] run_a_overflow
  by (simp add: obj_a_def)

end
